theory Spec2Isabelle
  imports Complex_Main
begin

section \<open>Data model of script.js\<close>

text \<open>
  The game keeps all of its simulation state in one object, \<^verbatim>\<open>state\<close>, and reads
  the page for everything else. JavaScript numbers are modelled as mathematical reals:
  comparisons and the arithmetic of the game are taken exactly, rounding of IEEE doubles
  and the values NaN and Infinity are outside the model. The test \<^verbatim>\<open>!t\<close> of a number
  \<open>t\<close> is therefore \<open>t = 0\<close>.
\<close>

datatype game_state = Start | Playing | GameOver

text \<open>
  A pipe object as pushed by \<^verbatim>\<open>createPipe\<close>. The fields \<open>topEl\<close> and \<open>bottomEl\<close>
  are references to the two page elements of the pipe; a reference is the number of the
  element in the order of creation by \<^verbatim>\<open>document.createElement\<close>.
\<close>

record pipe =
  x :: real
  topHeight :: real
  bottomY :: real
  passed :: bool
  topEl :: nat
  bottomEl :: nat

text \<open>A rectangle as returned by \<^verbatim>\<open>getBoundingClientRect\<close> (the four fields the game reads).\<close>

record rect =
  left :: real
  right :: real
  top' :: real
  bottom :: real

text \<open>The object returned by \<^verbatim>\<open>getSizes\<close>.\<close>

record sizes =
  gameWidth :: real
  gameHeight :: real
  groundHeight :: real
  birdWidth :: real
  birdHeight :: real

text \<open>
  The \<^verbatim>\<open>state\<close> object, field by field, followed by the three pieces of the browser
  that the game writes to and that matter to it: the entry of \<^verbatim>\<open>localStorage\<close> under
  the high-score key (read through \<^verbatim>\<open>Number\<close>; \<open>None\<close> when that reading is not a
  finite number), the number of elements created so far, and the number of animation
  frames requested so far. Texts and styles written to the page are not modelled.
\<close>

record state =
  gameState :: game_state
  birdX :: real
  birdY :: real
  birdVelocity :: real
  gravity :: real
  jumpStrength :: real
  pipeSpeed :: real
  pipeWidth :: real
  pipeGap :: real
  pipeInterval :: real
  minPipeHeight :: real
  score :: real
  highScore :: real
  pipes :: "pipe list"
  lastPipeTime :: real
  lastFrameTime :: real
  animationFrameId :: "nat option"
  storedHighScore :: "real option"
  elements :: nat
  frameRequests :: nat

text \<open>
  What the page answers when the game queries it during one call: the sizes, the next
  value of \<^verbatim>\<open>Math.random\<close>, the bounding rectangles of the bird and of the game area,
  and the bounding rectangle of every pipe element.
\<close>

record env =
  sizes :: sizes
  random :: real
  birdRect :: rect
  gameRect :: rect
  elRect :: "nat \<Rightarrow> rect"

text \<open>The literal that initialises \<^verbatim>\<open>state\<close>, over a given content of the storage.\<close>

definition initialState :: "real option \<Rightarrow> state" where
  "initialState stored =
     \<lparr> gameState = Start, birdX = 90, birdY = 0, birdVelocity = 0, gravity = 0.45,
       jumpStrength = - 8.5, pipeSpeed = 2.4, pipeWidth = 68, pipeGap = 170,
       pipeInterval = 1550, minPipeHeight = 70, score = 0, highScore = 0, pipes = [],
       lastPipeTime = 0, lastFrameTime = 0, animationFrameId = None,
       storedHighScore = stored, elements = 0, frameRequests = 0 \<rparr>"

section \<open>Operations\<close>

definition loadHighScore :: "state \<Rightarrow> state" where
  "loadHighScore s =
     s\<lparr>highScore := (case storedHighScore s of
                       Some saved \<Rightarrow> if saved > 0 then saved else 0
                     | None \<Rightarrow> 0)\<rparr>"

definition saveHighScore :: "state \<Rightarrow> state" where
  "saveHighScore s = s\<lparr>storedHighScore := Some (highScore s)\<rparr>"

definition clearPipes :: "state \<Rightarrow> state" where
  "clearPipes s = s\<lparr>pipes := []\<rparr>"

definition resetBird :: "sizes \<Rightarrow> state \<Rightarrow> state" where
  "resetBird sz s =
     s\<lparr>birdY := (gameHeight sz - groundHeight sz - birdHeight sz) / 2,
       birdVelocity := 0\<rparr>"

definition resetGameState :: "sizes \<Rightarrow> state \<Rightarrow> state" where
  "resetGameState sz s =
     resetBird sz (clearPipes (s\<lparr>score := 0, lastPipeTime := 0, lastFrameTime := 0\<rparr>))"

text \<open>
  The local constants of \<^verbatim>\<open>createPipe\<close>: the height of the top segment, the offset of
  the bottom segment and the height of the bottom segment, for a random draw \<open>r\<close>.
\<close>

definition pipeShape :: "sizes \<Rightarrow> real \<Rightarrow> state \<Rightarrow> real \<times> real \<times> real" where
  "pipeShape sz r s =
     (let availableHeight = gameHeight sz - groundHeight sz;
          maxTopHeight = availableHeight - pipeGap s - minPipeHeight s;
          topHeight = r * (maxTopHeight - minPipeHeight s) + minPipeHeight s;
          bottomY = topHeight + pipeGap s;
          bottomHeight = availableHeight - bottomY
      in (topHeight, bottomY, bottomHeight))"

definition createPipe :: "env \<Rightarrow> real \<Rightarrow> state \<Rightarrow> state" where
  "createPipe e now s =
     (case pipeShape (sizes e) (random e) s of
        (th, by, bh) \<Rightarrow>
          s\<lparr>pipes := pipes s @
                [\<lparr> x = gameWidth (sizes e), topHeight = th, bottomY = by,
                   passed = False, topEl = elements s, bottomEl = elements s + 1 \<rparr>],
            elements := elements s + 2,
            lastPipeTime := now\<rparr>)"

text \<open>
  The body of the \<^verbatim>\<open>forEach\<close> of \<^verbatim>\<open>updatePipes\<close> for one pipe: the pipe moves, and
  is scored when the front of the bird is past its trailing edge and it has not been
  scored before. The loop threads the state through the pipes in array order.
\<close>

definition movePipe :: "real \<Rightarrow> real \<Rightarrow> pipe \<Rightarrow> state \<Rightarrow> pipe \<times> state" where
  "movePipe moveBy birdFront p s =
     (let p1 = p\<lparr>x := x p - moveBy\<rparr> in
      if \<not> passed p1 \<and> birdFront > x p1 + pipeWidth s then
        (let p2 = p1\<lparr>passed := True\<rparr>;
             s1 = s\<lparr>score := score s + 1\<rparr>;
             s2 = (if score s1 > highScore s1
                   then saveHighScore (s1\<lparr>highScore := score s1\<rparr>) else s1)
         in (p2, s2))
      else (p1, s))"

fun movePipes :: "real \<Rightarrow> real \<Rightarrow> pipe list \<Rightarrow> state \<Rightarrow> pipe list \<times> state" where
  "movePipes moveBy birdFront [] s = ([], s)"
| "movePipes moveBy birdFront (p # ps) s =
     (case movePipe moveBy birdFront p s of
        (p', s') \<Rightarrow>
          (case movePipes moveBy birdFront ps s' of
             (ps', s'') \<Rightarrow> (p' # ps', s'')))"

definition updatePipes :: "sizes \<Rightarrow> real \<Rightarrow> state \<Rightarrow> state" where
  "updatePipes sz deltaSec s =
     (let moveBy = pipeSpeed s * 60 * deltaSec;
          birdFront = birdX s + birdWidth sz
      in case movePipes moveBy birdFront (pipes s) s of
           (ps, s1) \<Rightarrow>
             s1\<lparr>pipes := filter (\<lambda>p. x p + pipeWidth s1 > - 10) ps\<rparr>)"

definition intersects :: "rect \<Rightarrow> rect \<Rightarrow> bool" where
  "intersects a b \<longleftrightarrow>
     left a < right b \<and> right a > left b \<and> top' a < bottom b \<and> bottom a > top' b"

text \<open>The \<^verbatim>\<open>for\<close> loop of \<^verbatim>\<open>hasCollision\<close>, returning at the first hit.\<close>

fun pipesHit :: "env \<Rightarrow> pipe list \<Rightarrow> bool" where
  "pipesHit e [] = False"
| "pipesHit e (p # ps) =
     (if intersects (birdRect e) (elRect e (topEl p)) then True
      else if intersects (birdRect e) (elRect e (bottomEl p)) then True
      else pipesHit e ps)"

definition hasCollision :: "env \<Rightarrow> state \<Rightarrow> bool" where
  "hasCollision e s =
     (let birdTop = top' (birdRect e) - top' (gameRect e);
          birdBottom = bottom (birdRect e) - top' (gameRect e)
      in if birdTop \<le> 0 then True
         else if birdBottom \<ge> gameHeight (sizes e) - groundHeight (sizes e) then True
         else pipesHit e (pipes s))"

definition endGame :: "state \<Rightarrow> state" where
  "endGame s = s\<lparr>gameState := GameOver\<rparr>"

text \<open>\<^verbatim>\<open>requestAnimationFrame\<close> hands out a new request number.\<close>

definition requestFrame :: "state \<Rightarrow> state" where
  "requestFrame s =
     s\<lparr>animationFrameId := Some (frameRequests s + 1),
       frameRequests := frameRequests s + 1\<rparr>"

text \<open>
  The step of one frame, as \<^verbatim>\<open>gameLoop\<close> computes it from the timestamp: the elapsed
  seconds since the last frame (none when no frame is recorded), at most 0.05.
\<close>

definition frameDelta :: "real \<Rightarrow> state \<Rightarrow> real" where
  "frameDelta now s =
     (let s1 = (if lastFrameTime s = 0 then s\<lparr>lastFrameTime := now\<rparr> else s)
      in min ((now - lastFrameTime s1) / 1000) 0.05)"

definition gameLoop :: "env \<Rightarrow> real \<Rightarrow> state \<Rightarrow> state" where
  "gameLoop e now s =
     (if gameState s \<noteq> Playing then s
      else
        let deltaSec = frameDelta now s;
            s2 = s\<lparr>lastFrameTime := now\<rparr>;
            s3 = s2\<lparr>birdVelocity := birdVelocity s2 + gravity s2 * 60 * deltaSec\<rparr>;
            s4 = s3\<lparr>birdY := birdY s3 + birdVelocity s3 * 60 * deltaSec\<rparr>;
            s5 = (if lastPipeTime s4 = 0 \<or> now - lastPipeTime s4 \<ge> pipeInterval s4
                  then createPipe e now s4 else s4);
            s6 = updatePipes (sizes e) deltaSec s5
        in if hasCollision e s6 then endGame s6 else requestFrame s6)"

definition startPlaying :: "sizes \<Rightarrow> state \<Rightarrow> state" where
  "startPlaying sz s =
     (case gameState s of
        Playing \<Rightarrow> s\<lparr>birdVelocity := jumpStrength s\<rparr>
      | _ \<Rightarrow>
          (let s1 = resetGameState sz s;
               s2 = s1\<lparr>gameState := Playing\<rparr>;
               s3 = s2\<lparr>birdVelocity := jumpStrength s2\<rparr>
           in requestFrame s3))"

text \<open>The three kinds of event that \<^verbatim>\<open>init\<close> registers \<^verbatim>\<open>handleInput\<close> for.\<close>

datatype input = KeyDown string | MouseDown | TouchStart

fun handleInput :: "sizes \<Rightarrow> input \<Rightarrow> state \<Rightarrow> state" where
  "handleInput sz (KeyDown code) s = (if code \<noteq> ''Space'' then s else startPlaying sz s)"
| "handleInput sz MouseDown s = startPlaying sz s"
| "handleInput sz TouchStart s = startPlaying sz s"

definition init :: "sizes \<Rightarrow> state \<Rightarrow> state" where
  "init sz s = resetGameState sz (loadHighScore s)"

text \<open>
  After \<^verbatim>\<open>init\<close> the page calls into the game in three ways: an input event, an
  animation frame with its timestamp, and a resize of the window. A run is a sequence of
  such calls; the page's answers during each call come with it.
\<close>

datatype event = Input sizes input | Frame env real | Resize sizes

fun step :: "state \<Rightarrow> event \<Rightarrow> state" where
  "step s (Input sz i) = handleInput sz i s"
| "step s (Frame e now) = gameLoop e now s"
| "step s (Resize sz) = (if gameState s \<noteq> Playing then resetBird sz s else s)"

definition run :: "state \<Rightarrow> event list \<Rightarrow> state" where
  "run s evs = foldl step s evs"

text \<open>
  Two conditions on the page and the clock, for the statements about the order of the
  gates. An event is calm for a width \<open>W\<close> when, if it is a frame, the field is \<open>W\<close>
  wide during it and its timestamp is not before the recorded one. A run is steady when
  each of its events is calm in the state it meets.
\<close>

fun calm :: "real \<Rightarrow> state \<Rightarrow> event \<Rightarrow> bool" where
  "calm W s (Frame e now) =
     (gameWidth (sizes e) = W \<and> (lastFrameTime s = 0 \<or> lastFrameTime s \<le> now))"
| "calm W s (Input sz i) = True"
| "calm W s (Resize sz) = True"

fun steady :: "real \<Rightarrow> state \<Rightarrow> event list \<Rightarrow> bool" where
  "steady W s [] = True"
| "steady W s (ev # evs) = (calm W s ev \<and> steady W (step s ev) evs)"

section \<open>Sample inputs\<close>

text \<open>
  A page for the examples: a field 400 wide and 500 high over a ground strip of 50, a
  bird 40 by 28 resting at the vertical centre, no pipe element near it, and a random
  draw of one half.
\<close>

definition sampleSizes :: sizes where
  "sampleSizes =
     \<lparr> gameWidth = 400, gameHeight = 500, groundHeight = 50, birdWidth = 40,
       birdHeight = 28 \<rparr>"

definition samplePage :: env where
  "samplePage =
     \<lparr> sizes = sampleSizes, random = 1 / 2,
       birdRect = \<lparr> left = 90, right = 130, top' = 211, bottom = 239 \<rparr>,
       gameRect = \<lparr> left = 0, right = 400, top' = 0, bottom = 500 \<rparr>,
       elRect = (\<lambda>n. \<lparr> left = 1000, right = 1068, top' = 0, bottom = 100 \<rparr>) \<rparr>"

text \<open>A gate at position \<open>v\<close> that has been scored, made of the elements \<open>n\<close> and \<open>n + 1\<close>.\<close>

definition scoredGate :: "real \<Rightarrow> nat \<Rightarrow> pipe" where
  "scoredGate v n =
     \<lparr> x = v, topHeight = 100, bottomY = 270, passed = True, topEl = n,
       bottomEl = n + 1 \<rparr>"

text \<open>The same gate, not yet scored.\<close>

definition freshGate :: "real \<Rightarrow> nat \<Rightarrow> pipe" where
  "freshGate v n = (scoredGate v n)\<lparr>passed := False\<rparr>"

text \<open>A session in play over the given gates.\<close>

definition playingWith :: "pipe list \<Rightarrow> state" where
  "playingWith ps = (initialState None)\<lparr>gameState := Playing, pipes := ps\<rparr>"

section \<open>What one pass over the gates changes\<close>

lemma movePipe_frame:
  "pipeWidth (snd (movePipe m b p s)) = pipeWidth s"
  "pipeSpeed (snd (movePipe m b p s)) = pipeSpeed s"
  "elements (snd (movePipe m b p s)) = elements s"
  "gameState (snd (movePipe m b p s)) = gameState s"
  "lastPipeTime (snd (movePipe m b p s)) = lastPipeTime s"
  "pipeInterval (snd (movePipe m b p s)) = pipeInterval s"
  by (simp_all add: movePipe_def Let_def saveHighScore_def)

lemma movePipe_pipe:
  "x (fst (movePipe m b p s)) = x p - m"
  "topEl (fst (movePipe m b p s)) = topEl p"
  "bottomEl (fst (movePipe m b p s)) = bottomEl p"
  by (simp_all add: movePipe_def Let_def)

lemma movePipes_frame:
  "pipeWidth (snd (movePipes m b ps s)) = pipeWidth s"
  "pipeSpeed (snd (movePipes m b ps s)) = pipeSpeed s"
  "elements (snd (movePipes m b ps s)) = elements s"
  "gameState (snd (movePipes m b ps s)) = gameState s"
  "lastPipeTime (snd (movePipes m b ps s)) = lastPipeTime s"
  "pipeInterval (snd (movePipes m b ps s)) = pipeInterval s"
  by (induction ps arbitrary: s; simp add: split_beta movePipe_frame)+

lemma movePipes_map:
  "map (\<lambda>p. (topEl p, x p)) (fst (movePipes m b ps s)) = map (\<lambda>p. (topEl p, x p - m)) ps"
  by (induction ps arbitrary: s) (simp_all add: split_beta movePipe_pipe)

lemma updatePipes_filter:
  "pipes (updatePipes sz d s) =
   filter (\<lambda>p. x p + pipeWidth s > - 10)
     (fst (movePipes (pipeSpeed s * 60 * d) (birdX s + birdWidth sz) (pipes s) s))"
  by (simp add: updatePipes_def Let_def split_beta movePipes_frame)

lemma updatePipes_positions:
  "map (\<lambda>p. (topEl p, x p)) (pipes (updatePipes sz d s)) =
     filter (\<lambda>(el, v). v + pipeWidth s > - 10)
       (map (\<lambda>p. (topEl p, x p - pipeSpeed s * 60 * d)) (pipes s))"
proof -
  define m where "m = pipeSpeed s * 60 * d"
  define M where "M = fst (movePipes m (birdX s + birdWidth sz) (pipes s) s)"
  have "pipes (updatePipes sz d s) = filter (\<lambda>p. x p + pipeWidth s > - 10) M"
    by (simp add: updatePipes_filter M_def m_def)
  then have "map (\<lambda>p. (topEl p, x p)) (pipes (updatePipes sz d s)) =
      filter (\<lambda>(el, v). v + pipeWidth s > - 10) (map (\<lambda>p. (topEl p, x p)) M)"
    by (simp add: filter_map comp_def)
  also have "map (\<lambda>p. (topEl p, x p)) M = map (\<lambda>p. (topEl p, x p - m)) (pipes s)"
    unfolding M_def by (rule movePipes_map)
  finally show ?thesis
    by (simp add: m_def)
qed

lemma movePipe_state:
  "\<exists>a h st. snd (movePipe m b p s) = s\<lparr>score := a, highScore := h, storedHighScore := st\<rparr>"
proof (cases "\<not> passed p \<and> b > x p - m + pipeWidth s")
  case False
  then have "snd (movePipe m b p s) = s\<lparr>score := score s, highScore := highScore s, storedHighScore := storedHighScore s\<rparr>"
    by (auto simp: movePipe_def Let_def)
  then show ?thesis by blast
next
  case True
  then have "snd (movePipe m b p s) =
      s\<lparr>score := score s + 1,
        highScore := (if score s + 1 > highScore s then score s + 1 else highScore s),
        storedHighScore := (if score s + 1 > highScore s then Some (score s + 1) else storedHighScore s)\<rparr>"
    by (auto simp: movePipe_def Let_def saveHighScore_def)
  then show ?thesis by blast
qed

lemma movePipes_state:
  "\<exists>a h st. snd (movePipes m b ps s) = s\<lparr>score := a, highScore := h, storedHighScore := st\<rparr>"
proof (induction ps arbitrary: s)
  case Nil
  have "snd (movePipes m b [] s) = s\<lparr>score := score s, highScore := highScore s, storedHighScore := storedHighScore s\<rparr>"
    by simp
  then show ?case by blast
next
  case (Cons p ps)
  obtain a h st where 1: "snd (movePipe m b p s) = s\<lparr>score := a, highScore := h, storedHighScore := st\<rparr>"
    using movePipe_state by blast
  obtain a' h' st' where 2: "snd (movePipes m b ps (snd (movePipe m b p s))) =
      (snd (movePipe m b p s))\<lparr>score := a', highScore := h', storedHighScore := st'\<rparr>"
    using Cons.IH by blast
  have "snd (movePipes m b (p # ps) s) = s\<lparr>score := a', highScore := h', storedHighScore := st'\<rparr>"
    by (simp add: split_beta 2) (simp add: 1)
  then show ?case by blast
qed

lemma updatePipes_state:
  "\<exists>a h st ps. updatePipes sz d s =
      s\<lparr>score := a, highScore := h, storedHighScore := st, pipes := ps\<rparr>"
proof -
  obtain a h st where
    "snd (movePipes (pipeSpeed s * 60 * d) (birdX s + birdWidth sz) (pipes s) s) =
       s\<lparr>score := a, highScore := h, storedHighScore := st\<rparr>"
    using movePipes_state by blast
  then show ?thesis
    by (simp add: updatePipes_def Let_def split_beta) blast
qed

lemma updatePipes_frame:
  "birdVelocity (updatePipes sz d s) = birdVelocity s"
  "birdY (updatePipes sz d s) = birdY s"
  "lastFrameTime (updatePipes sz d s) = lastFrameTime s"
  "lastPipeTime (updatePipes sz d s) = lastPipeTime s"
  "elements (updatePipes sz d s) = elements s"
  "gameState (updatePipes sz d s) = gameState s"
  "pipeSpeed (updatePipes sz d s) = pipeSpeed s"
  "pipeWidth (updatePipes sz d s) = pipeWidth s"
  "pipeInterval (updatePipes sz d s) = pipeInterval s"
proof -
  obtain a h st ps where "updatePipes sz d s =
      s\<lparr>score := a, highScore := h, storedHighScore := st, pipes := ps\<rparr>"
    using updatePipes_state by blast
  then show
  "birdVelocity (updatePipes sz d s) = birdVelocity s"
  "birdY (updatePipes sz d s) = birdY s"
  "lastFrameTime (updatePipes sz d s) = lastFrameTime s"
  "lastPipeTime (updatePipes sz d s) = lastPipeTime s"
  "elements (updatePipes sz d s) = elements s"
  "gameState (updatePipes sz d s) = gameState s"
  "pipeSpeed (updatePipes sz d s) = pipeSpeed s"
  "pipeWidth (updatePipes sz d s) = pipeWidth s"
  "pipeInterval (updatePipes sz d s) = pipeInterval s"
    by simp_all
qed

lemma createPipe_frame:
  "birdVelocity (createPipe e now s) = birdVelocity s"
  "birdY (createPipe e now s) = birdY s"
  "lastFrameTime (createPipe e now s) = lastFrameTime s"
  "lastPipeTime (createPipe e now s) = now"
  "elements (createPipe e now s) = elements s + 2"
  "gameState (createPipe e now s) = gameState s"
  "pipeSpeed (createPipe e now s) = pipeSpeed s"
  "pipeWidth (createPipe e now s) = pipeWidth s"
  "pipeInterval (createPipe e now s) = pipeInterval s"
  by (simp_all add: createPipe_def split_beta)

lemma gameLoop_bird:
  assumes "gameState s = Playing"
  shows "birdVelocity (gameLoop e now s) = birdVelocity s + gravity s * 60 * frameDelta now s"
    and "birdY (gameLoop e now s) =
           birdY s + (birdVelocity s + gravity s * 60 * frameDelta now s) * 60 * frameDelta now s"
    and "lastFrameTime (gameLoop e now s) = now"
  using assms
  by (simp_all add: gameLoop_def Let_def endGame_def requestFrame_def updatePipes_frame
      createPipe_frame)

lemma gameLoop_spawn:
  assumes "gameState s = Playing"
  shows "lastPipeTime s = 0 \<or> now - lastPipeTime s \<ge> pipeInterval s \<Longrightarrow>
           lastPipeTime (gameLoop e now s) = now \<and> elements (gameLoop e now s) = elements s + 2"
    and "\<not> (lastPipeTime s = 0 \<or> now - lastPipeTime s \<ge> pipeInterval s) \<Longrightarrow>
           lastPipeTime (gameLoop e now s) = lastPipeTime s \<and> elements (gameLoop e now s) = elements s"
  using assms
  by (simp_all add: gameLoop_def Let_def endGame_def requestFrame_def updatePipes_frame
      createPipe_frame)

section \<open>Properties\<close>

subsection \<open>Eviction\<close>

text \<open>
  C1, as the code has it. One call of \<^verbatim>\<open>updatePipes\<close> moves every gate left by
  \<open>pipeSpeed * 60 * deltaSec\<close> and then keeps, in order, exactly the gates whose
  trailing edge \<open>x + pipeWidth\<close> is greater than \<open>-10\<close>: a gate is removed exactly when
  its trailing edge is at most \<open>-10\<close>. With a width of 68 the gates at \<open>x = -79\<close>
  (trailing edge \<open>-11\<close>) and at \<open>x = -78\<close> (trailing edge exactly \<open>-10\<close>) are both
  removed, and a gate at \<open>x = -77\<close> stays.
\<close>

theorem updatePipes_keeps_trailing_edge_above_margin:
  "map (\<lambda>p. (topEl p, x p)) (pipes (updatePipes sz d s)) =
     filter (\<lambda>(el, v). v + pipeWidth s > - 10)
       (map (\<lambda>p. (topEl p, x p - pipeSpeed s * 60 * d)) (pipes s))
   \<and> pipes (updatePipes sz 0
        (playingWith [scoredGate (- 79) 0, scoredGate (- 78) 2, scoredGate (- 77) 4])) =
      [scoredGate (- 77) 4]"
proof
  show "map (\<lambda>p. (topEl p, x p)) (pipes (updatePipes sz d s)) =
     filter (\<lambda>(el, v). v + pipeWidth s > - 10)
       (map (\<lambda>p. (topEl p, x p - pipeSpeed s * 60 * d)) (pipes s))"
    by (rule updatePipes_positions)
next
  show "pipes (updatePipes sz 0
        (playingWith [scoredGate (- 79) 0, scoredGate (- 78) 2, scoredGate (- 77) 4])) =
      [scoredGate (- 77) 4]"
    by (simp add: updatePipes_def playingWith_def initialState_def scoredGate_def
        movePipe_def Let_def)
qed

text \<open>
  The claim's boundary case fails: the gate whose trailing edge is exactly \<open>-10\<close> is
  in the collection before the call and gone after it.
\<close>

theorem gate_at_margin_is_evicted:
  "x (scoredGate (- 78) 0) + pipeWidth (playingWith [scoredGate (- 78) 0]) = - 10
   \<and> pipes (playingWith [scoredGate (- 78) 0]) = [scoredGate (- 78) 0]
   \<and> pipes (updatePipes sampleSizes 0 (playingWith [scoredGate (- 78) 0])) = []"
  by (simp add: updatePipes_def playingWith_def initialState_def scoredGate_def
      movePipe_def Let_def)

subsection \<open>Collision\<close>

lemma pipesHit_iff:
  "pipesHit e ps \<longleftrightarrow>
     (\<exists>p \<in> set ps. intersects (birdRect e) (elRect e (topEl p))
                 \<or> intersects (birdRect e) (elRect e (bottomEl p)))"
  by (induction ps) auto

text \<open>
  C3. Two rectangles intersect exactly when they overlap strictly on both axes, so
  rectangles that only share an edge do not intersect. \<^verbatim>\<open>hasCollision\<close> reports a
  collision exactly when the top of the bird is at or above the top of the field, or its
  bottom is at or below the ground line, or its rectangle intersects the rectangle of
  the top or of the bottom element of some gate.
\<close>

theorem collision_strict_on_gates_inclusive_on_field:
  "(intersects a b \<longleftrightarrow>
      left a < right b \<and> right a > left b \<and> top' a < bottom b \<and> bottom a > top' b)
   \<and> (right a = left b \<or> left a = right b \<or> bottom a = top' b \<or> top' a = bottom b
        \<longrightarrow> \<not> intersects a b)
   \<and> (hasCollision e s \<longleftrightarrow>
        top' (birdRect e) - top' (gameRect e) \<le> 0
        \<or> bottom (birdRect e) - top' (gameRect e) \<ge> gameHeight (sizes e) - groundHeight (sizes e)
        \<or> (\<exists>p \<in> set (pipes s). intersects (birdRect e) (elRect e (topEl p))
                 \<or> intersects (birdRect e) (elRect e (bottomEl p))))"
  by (auto simp: intersects_def hasCollision_def Let_def pipesHit_iff)

theorem collision_witness:
  "right \<lparr> left = 50, right = 90, top' = 211, bottom = 239 \<rparr> = left (birdRect samplePage)
   \<and> \<not> intersects \<lparr> left = 50, right = 90, top' = 211, bottom = 239 \<rparr> (birdRect samplePage)
   \<and> \<not> hasCollision samplePage (playingWith [scoredGate 200 0])
   \<and> hasCollision (samplePage\<lparr>birdRect := \<lparr> left = 90, right = 130, top' = 0, bottom = 28 \<rparr>\<rparr>)
         (playingWith [])
   \<and> hasCollision (samplePage\<lparr>birdRect := \<lparr> left = 90, right = 130, top' = 422, bottom = 450 \<rparr>\<rparr>)
         (playingWith [])"
  using collision_strict_on_gates_inclusive_on_field
      [of "\<lparr> left = 50, right = 90, top' = 211, bottom = 239 \<rparr>" "birdRect samplePage"
          samplePage "playingWith [scoredGate 200 0]"]
    collision_strict_on_gates_inclusive_on_field
      [of "\<lparr> left = 50, right = 90, top' = 211, bottom = 239 \<rparr>" "birdRect samplePage"
          "samplePage\<lparr>birdRect := \<lparr> left = 90, right = 130, top' = 0, bottom = 28 \<rparr>\<rparr>" "playingWith []"]
    collision_strict_on_gates_inclusive_on_field
      [of "\<lparr> left = 50, right = 90, top' = 211, bottom = 239 \<rparr>" "birdRect samplePage"
          "samplePage\<lparr>birdRect := \<lparr> left = 90, right = 130, top' = 422, bottom = 450 \<rparr>\<rparr>" "playingWith []"]
  by (simp add: samplePage_def sampleSizes_def playingWith_def initialState_def scoredGate_def intersects_def)

subsection \<open>Restart\<close>

text \<open>
  C5. An activating input in the state \<open>Start\<close> or \<open>GameOver\<close> leaves the score at 0
  and the gate collection empty, puts the bird at the vertical centre of the field above
  the ground, gives it the jump velocity and starts play. A press of the space key, a
  mouse press and a touch all activate.
\<close>

theorem activate_resets:
  assumes "gameState s = Start \<or> gameState s = GameOver"
  shows "score (startPlaying sz s) = 0
       \<and> pipes (startPlaying sz s) = []
       \<and> birdY (startPlaying sz s) = (gameHeight sz - groundHeight sz - birdHeight sz) / 2
       \<and> birdY (startPlaying sz s) + birdHeight sz / 2 = (gameHeight sz - groundHeight sz) / 2
       \<and> birdVelocity (startPlaying sz s) = jumpStrength s
       \<and> gameState (startPlaying sz s) = Playing
       \<and> handleInput sz (KeyDown ''Space'') s = startPlaying sz s
       \<and> handleInput sz MouseDown s = startPlaying sz s
       \<and> handleInput sz TouchStart s = startPlaying sz s"
  using assms
  by (auto simp: startPlaying_def resetGameState_def resetBird_def clearPipes_def
      requestFrame_def Let_def field_simps)

theorem activate_resets_witness:
  "gameState ((playingWith [scoredGate 5 0])\<lparr>gameState := GameOver, score := 3\<rparr>) = GameOver
   \<and> score (startPlaying sampleSizes ((playingWith [scoredGate 5 0])\<lparr>gameState := GameOver, score := 3\<rparr>)) = 0
   \<and> pipes (startPlaying sampleSizes ((playingWith [scoredGate 5 0])\<lparr>gameState := GameOver, score := 3\<rparr>)) = []
   \<and> birdY (startPlaying sampleSizes ((playingWith [scoredGate 5 0])\<lparr>gameState := GameOver, score := 3\<rparr>)) = 211
   \<and> birdVelocity (startPlaying sampleSizes ((playingWith [scoredGate 5 0])\<lparr>gameState := GameOver, score := 3\<rparr>)) = - 8.5"
  using activate_resets [of "(playingWith [scoredGate 5 0])\<lparr>gameState := GameOver, score := 3\<rparr>" sampleSizes]
  by (simp add: playingWith_def initialState_def sampleSizes_def)

subsection \<open>Gate geometry\<close>

text \<open>
  C7. For a random draw in \<open>[0, 1)\<close> and a field whose height above the ground is at
  least the gap plus twice the minimum height, the gate that \<^verbatim>\<open>createPipe\<close> appends
  has a top segment of height between \<open>minPipeHeight\<close> and
  \<open>availableHeight - pipeGap - minPipeHeight\<close>, and its bottom segment, which fills the
  field from the end of the gap to the ground, has height at least \<open>minPipeHeight\<close>.
\<close>

theorem createPipe_heights:
  assumes "0 \<le> random e" "random e < 1"
      and "gameHeight (sizes e) - groundHeight (sizes e) \<ge> pipeGap s + 2 * minPipeHeight s"
  shows "pipes (createPipe e now s) =
           pipes s @ [\<lparr> x = gameWidth (sizes e), topHeight = fst (pipeShape (sizes e) (random e) s),
                        bottomY = fst (pipeShape (sizes e) (random e) s) + pipeGap s,
                        passed = False, topEl = elements s, bottomEl = elements s + 1 \<rparr>]
       \<and> minPipeHeight s \<le> fst (pipeShape (sizes e) (random e) s)
       \<and> fst (pipeShape (sizes e) (random e) s)
            \<le> gameHeight (sizes e) - groundHeight (sizes e) - pipeGap s - minPipeHeight s
       \<and> snd (snd (pipeShape (sizes e) (random e) s)) =
            gameHeight (sizes e) - groundHeight (sizes e)
              - (fst (pipeShape (sizes e) (random e) s) + pipeGap s)
       \<and> minPipeHeight s \<le> snd (snd (pipeShape (sizes e) (random e) s))"
proof -
  define A where "A = gameHeight (sizes e) - groundHeight (sizes e) - pipeGap s - 2 * minPipeHeight s"
  have A: "0 \<le> A" using assms(3) by (simp add: A_def)
  have lo: "0 \<le> random e * A" using assms(1) A by simp
  have hi: "random e * A \<le> A"
    using mult_right_mono [of "random e" 1 A] assms(2) A by simp
  have th: "fst (pipeShape (sizes e) (random e) s) = random e * A + minPipeHeight s"
    by (simp add: pipeShape_def Let_def A_def algebra_simps)
  have bh: "snd (snd (pipeShape (sizes e) (random e) s)) =
      gameHeight (sizes e) - groundHeight (sizes e) - (fst (pipeShape (sizes e) (random e) s) + pipeGap s)"
    by (simp add: pipeShape_def Let_def)
  have cp: "pipes (createPipe e now s) =
           pipes s @ [\<lparr> x = gameWidth (sizes e), topHeight = fst (pipeShape (sizes e) (random e) s),
                        bottomY = fst (pipeShape (sizes e) (random e) s) + pipeGap s,
                        passed = False, topEl = elements s, bottomEl = elements s + 1 \<rparr>]"
    by (simp add: createPipe_def pipeShape_def Let_def)
  have rng: "minPipeHeight s \<le> fst (pipeShape (sizes e) (random e) s)"
    "fst (pipeShape (sizes e) (random e) s)
       \<le> gameHeight (sizes e) - groundHeight (sizes e) - pipeGap s - minPipeHeight s"
    using lo hi by (simp_all add: th A_def)
  have "minPipeHeight s \<le> snd (snd (pipeShape (sizes e) (random e) s))"
    using rng(2) by (simp add: bh)
  with cp rng bh show ?thesis by blast
qed

theorem createPipe_heights_witness:
  "0 \<le> random samplePage \<and> random samplePage < 1
   \<and> gameHeight (sizes samplePage) - groundHeight (sizes samplePage)
        \<ge> pipeGap (playingWith []) + 2 * minPipeHeight (playingWith [])
   \<and> fst (pipeShape (sizes samplePage) (random samplePage) (playingWith [])) = 140
   \<and> minPipeHeight (playingWith []) \<le> 140 \<and> (140::real) \<le> 500 - 50 - 170 - 70
   \<and> snd (snd (pipeShape (sizes samplePage) (random samplePage) (playingWith []))) = 140"
  using createPipe_heights [of samplePage "playingWith []" 0]
  by (simp add: samplePage_def sampleSizes_def playingWith_def initialState_def pipeShape_def Let_def)

subsection \<open>The clamped step\<close>

lemma frameDelta_le: "frameDelta now s \<le> 0.05"
  by (simp add: frameDelta_def Let_def)

lemma frameDelta_clamped:
  "lastFrameTime s \<noteq> 0 \<Longrightarrow> (now - lastFrameTime s) / 1000 \<ge> 0.05 \<Longrightarrow> frameDelta now s = 0.05"
  by (simp add: frameDelta_def Let_def)

lemma createPipe_pipes_cong:
  "pipes (createPipe e now (s\<lparr>lastFrameTime := a, birdVelocity := b, birdY := c\<rparr>)) =
   pipes (createPipe e now s)"
  by (simp add: createPipe_def pipeShape_def Let_def)

lemma gameLoop_pipes:
  assumes "gameState s = Playing"
  shows "map (\<lambda>p. (topEl p, x p)) (pipes (gameLoop e now s)) =
     filter (\<lambda>(el, v). v + pipeWidth s > - 10)
       (map (\<lambda>p. (topEl p, x p - pipeSpeed s * 60 * frameDelta now s))
         (pipes (if lastPipeTime s = 0 \<or> now - lastPipeTime s \<ge> pipeInterval s
                 then createPipe e now s else s)))"
  using assms
  by (simp add: gameLoop_def Let_def endGame_def requestFrame_def updatePipes_positions
      createPipe_frame createPipe_pipes_cong)

lemma frameDelta_eq:
  "frameDelta now s =
     (if lastFrameTime s = 0 then 0 else min ((now - lastFrameTime s) / 1000) 0.05)"
  by (simp add: frameDelta_def Let_def)

lemma movePipe_fst:
  "fst (movePipe m b p s) =
     p\<lparr>x := x p - m, passed := (passed p \<or> b > x p - m + pipeWidth s)\<rparr>"
  by (cases p) (simp add: movePipe_def Let_def)

lemma movePipes_fst:
  "fst (movePipes m b ps s) =
     map (\<lambda>p. p\<lparr>x := x p - m, passed := (passed p \<or> b > x p - m + pipeWidth s)\<rparr>) ps"
  by (induction ps arbitrary: s) (simp_all add: split_beta movePipe_fst movePipe_frame)

lemma updatePipes_gates:
  "pipes (updatePipes sz d s) =
     filter (\<lambda>p. x p + pipeWidth s > - 10)
       (map (\<lambda>p. p\<lparr>x := x p - pipeSpeed s * 60 * d,
                   passed := (passed p \<or> birdX s + birdWidth sz
                                 > x p - pipeSpeed s * 60 * d + pipeWidth s)\<rparr>)
         (pipes s))"
  by (simp add: updatePipes_filter movePipes_fst)

lemma createPipe_gates:
  "pipes (createPipe e now s) =
     pipes s @ [\<lparr> x = gameWidth (sizes e),
                  topHeight = fst (pipeShape (sizes e) (random e) s),
                  bottomY = fst (pipeShape (sizes e) (random e) s) + pipeGap s,
                  passed = False, topEl = elements s, bottomEl = elements s + 1 \<rparr>]"
  by (simp add: createPipe_def pipeShape_def Let_def)

lemma createPipe_birdX: "birdX (createPipe e now s) = birdX s"
  by (simp add: createPipe_def split_beta)

lemma gameLoop_gates:
  assumes "gameState s = Playing"
  shows "pipes (gameLoop e now s) =
     filter (\<lambda>p. x p + pipeWidth s > - 10)
       (map (\<lambda>p. p\<lparr>x := x p - pipeSpeed s * 60 * frameDelta now s,
                   passed := (passed p \<or> birdX s + birdWidth (sizes e)
                                 > x p - pipeSpeed s * 60 * frameDelta now s + pipeWidth s)\<rparr>)
         (pipes (if lastPipeTime s = 0 \<or> now - lastPipeTime s \<ge> pipeInterval s
                 then createPipe e now s else s)))"
  using assms
  by (simp add: gameLoop_def Let_def endGame_def requestFrame_def updatePipes_gates
      createPipe_frame createPipe_birdX createPipe_pipes_cong)

lemma hasCollision_pipes: "pipes t = pipes s \<Longrightarrow> hasCollision e t = hasCollision e s"
  by (simp add: hasCollision_def)

lemma gameLoop_outcome:
  assumes "gameState s = Playing"
  shows "gameState (gameLoop e now s) =
           (if hasCollision e (gameLoop e now s) then GameOver else Playing)"
    and "frameRequests (gameLoop e now s) =
           (if hasCollision e (gameLoop e now s) then frameRequests s else frameRequests s + 1)"
    and "animationFrameId (gameLoop e now s) =
           (if hasCollision e (gameLoop e now s) then animationFrameId s
            else Some (frameRequests s + 1))"
proof -
  define u where "u = updatePipes (sizes e) (frameDelta now s)
      (if lastPipeTime s = 0 \<or> now - lastPipeTime s \<ge> pipeInterval s
       then createPipe e now
              (s\<lparr>lastFrameTime := now,
                 birdVelocity := birdVelocity s + gravity s * 60 * frameDelta now s,
                 birdY := birdY s + (birdVelocity s + gravity s * 60 * frameDelta now s) * 60
                              * frameDelta now s\<rparr>)
       else s\<lparr>lastFrameTime := now,
               birdVelocity := birdVelocity s + gravity s * 60 * frameDelta now s,
               birdY := birdY s + (birdVelocity s + gravity s * 60 * frameDelta now s) * 60
                            * frameDelta now s\<rparr>)"
  have G: "gameLoop e now s = (if hasCollision e u then endGame u else requestFrame u)"
    using assms by (simp add: gameLoop_def Let_def u_def)
  have "pipes (gameLoop e now s) = pipes u"
    by (simp add: G endGame_def requestFrame_def)
  then have H: "hasCollision e (gameLoop e now s) = hasCollision e u"
    by (rule hasCollision_pipes)
  obtain a h st ps where u: "u = (if lastPipeTime s = 0 \<or> now - lastPipeTime s \<ge> pipeInterval s
       then createPipe e now
              (s\<lparr>lastFrameTime := now,
                 birdVelocity := birdVelocity s + gravity s * 60 * frameDelta now s,
                 birdY := birdY s + (birdVelocity s + gravity s * 60 * frameDelta now s) * 60
                              * frameDelta now s\<rparr>)
       else s\<lparr>lastFrameTime := now,
               birdVelocity := birdVelocity s + gravity s * 60 * frameDelta now s,
               birdY := birdY s + (birdVelocity s + gravity s * 60 * frameDelta now s) * 60
                            * frameDelta now s\<rparr>)
      \<lparr>score := a, highScore := h, storedHighScore := st, pipes := ps\<rparr>"
    unfolding u_def using updatePipes_state by blast
  have fr: "frameRequests u = frameRequests s" "gameState u = Playing"
    "animationFrameId u = animationFrameId s"
    using assms by (simp_all add: u createPipe_def split_beta)
  show "gameState (gameLoop e now s) =
           (if hasCollision e (gameLoop e now s) then GameOver else Playing)"
    unfolding H by (simp add: G endGame_def requestFrame_def fr)
  show "frameRequests (gameLoop e now s) =
           (if hasCollision e (gameLoop e now s) then frameRequests s else frameRequests s + 1)"
    unfolding H by (simp add: G endGame_def requestFrame_def fr)
  show "animationFrameId (gameLoop e now s) =
           (if hasCollision e (gameLoop e now s) then animationFrameId s
            else Some (frameRequests s + 1))"
    unfolding H by (simp add: G endGame_def requestFrame_def fr)
qed

text \<open>
  C9, as the code has it. The step that a frame uses is never more than 0.05 seconds.
  When the recorded time of the last frame is not 0, the step is the elapsed time if
  that is at most 0.05 seconds, and exactly 0.05 when more time has passed. When the
  recorded time is 0, which the game reads as no frame so far, the step is 0 whatever
  the timestamp. In each case the frame runs as any other: the bird is integrated with
  that step, the timestamp is recorded, the gates are moved by that step, scored and
  evicted, and play ends on a collision and asks for the next frame otherwise.
\<close>

theorem frame_step_is_clamped:
  "frameDelta now s \<le> 0.05
   \<and> frameDelta now s =
       (if lastFrameTime s = 0 then 0 else min ((now - lastFrameTime s) / 1000) 0.05)
   \<and> (lastFrameTime s \<noteq> 0 \<and> (now - lastFrameTime s) / 1000 > 0.05 \<longrightarrow> frameDelta now s = 0.05)
   \<and> (lastFrameTime s \<noteq> 0 \<and> (now - lastFrameTime s) / 1000 \<le> 0.05 \<longrightarrow>
        frameDelta now s = (now - lastFrameTime s) / 1000)
   \<and> (lastFrameTime s = 0 \<longrightarrow> frameDelta now s = 0)
   \<and> (gameState s = Playing \<longrightarrow>
        birdVelocity (gameLoop e now s) = birdVelocity s + gravity s * 60 * frameDelta now s
      \<and> birdY (gameLoop e now s) =
          birdY s + birdVelocity (gameLoop e now s) * 60 * frameDelta now s
      \<and> lastFrameTime (gameLoop e now s) = now
      \<and> map (\<lambda>p. (topEl p, x p)) (pipes (gameLoop e now s)) =
          filter (\<lambda>(el, v). v + pipeWidth s > - 10)
            (map (\<lambda>p. (topEl p, x p - pipeSpeed s * 60 * frameDelta now s))
              (pipes (if lastPipeTime s = 0 \<or> now - lastPipeTime s \<ge> pipeInterval s
                      then createPipe e now s else s)))
      \<and> pipes (gameLoop e now s) =
          filter (\<lambda>p. x p + pipeWidth s > - 10)
            (map (\<lambda>p. p\<lparr>x := x p - pipeSpeed s * 60 * frameDelta now s,
                        passed := (passed p \<or> birdX s + birdWidth (sizes e)
                                      > x p - pipeSpeed s * 60 * frameDelta now s + pipeWidth s)\<rparr>)
              (pipes (if lastPipeTime s = 0 \<or> now - lastPipeTime s \<ge> pipeInterval s
                      then createPipe e now s else s)))
      \<and> gameState (gameLoop e now s) =
          (if hasCollision e (gameLoop e now s) then GameOver else Playing)
      \<and> frameRequests (gameLoop e now s) =
          (if hasCollision e (gameLoop e now s) then frameRequests s else frameRequests s + 1)
      \<and> animationFrameId (gameLoop e now s) =
          (if hasCollision e (gameLoop e now s) then animationFrameId s
           else Some (frameRequests s + 1)))"
proof -
  have step: "frameDelta now s =
       (if lastFrameTime s = 0 then 0 else min ((now - lastFrameTime s) / 1000) 0.05)"
    by (rule frameDelta_eq)
  have small: "frameDelta now s = (now - lastFrameTime s) / 1000"
    if "lastFrameTime s \<noteq> 0" "(now - lastFrameTime s) / 1000 \<le> 0.05"
    using that by (simp add: step)
  have unset: "frameDelta now s = 0" if "lastFrameTime s = 0"
    using that by (simp add: step)
  have frame: "birdVelocity (gameLoop e now s) = birdVelocity s + gravity s * 60 * frameDelta now s
      \<and> birdY (gameLoop e now s) =
          birdY s + birdVelocity (gameLoop e now s) * 60 * frameDelta now s
      \<and> lastFrameTime (gameLoop e now s) = now
      \<and> map (\<lambda>p. (topEl p, x p)) (pipes (gameLoop e now s)) =
          filter (\<lambda>(el, v). v + pipeWidth s > - 10)
            (map (\<lambda>p. (topEl p, x p - pipeSpeed s * 60 * frameDelta now s))
              (pipes (if lastPipeTime s = 0 \<or> now - lastPipeTime s \<ge> pipeInterval s
                      then createPipe e now s else s)))
      \<and> pipes (gameLoop e now s) =
          filter (\<lambda>p. x p + pipeWidth s > - 10)
            (map (\<lambda>p. p\<lparr>x := x p - pipeSpeed s * 60 * frameDelta now s,
                        passed := (passed p \<or> birdX s + birdWidth (sizes e)
                                      > x p - pipeSpeed s * 60 * frameDelta now s + pipeWidth s)\<rparr>)
              (pipes (if lastPipeTime s = 0 \<or> now - lastPipeTime s \<ge> pipeInterval s
                      then createPipe e now s else s)))
      \<and> gameState (gameLoop e now s) =
          (if hasCollision e (gameLoop e now s) then GameOver else Playing)
      \<and> frameRequests (gameLoop e now s) =
          (if hasCollision e (gameLoop e now s) then frameRequests s else frameRequests s + 1)
      \<and> animationFrameId (gameLoop e now s) =
          (if hasCollision e (gameLoop e now s) then animationFrameId s
           else Some (frameRequests s + 1))"
    if play: "gameState s = Playing"
  proof -
    have y: "birdY (gameLoop e now s) =
        birdY s + birdVelocity (gameLoop e now s) * 60 * frameDelta now s"
      by (simp add: gameLoop_bird [OF play])
    show ?thesis
      by (intro conjI y gameLoop_bird(1,3) [OF play] gameLoop_pipes [OF play]
          gameLoop_gates [OF play] gameLoop_outcome [OF play])
  qed
  have large: "frameDelta now s = 0.05"
    if "lastFrameTime s \<noteq> 0" "(now - lastFrameTime s) / 1000 > 0.05"
    using that by (simp add: frameDelta_clamped)
  have le: "frameDelta now s \<le> 0.05"
    by (rule frameDelta_le)
  from le step large small unset frame show ?thesis
    by blast
qed

theorem frame_step_is_clamped_witness:
  "gameState ((playingWith [])\<lparr>lastFrameTime := 1000, lastPipeTime := 1000\<rparr>) = Playing
   \<and> lastFrameTime ((playingWith [])\<lparr>lastFrameTime := 1000, lastPipeTime := 1000\<rparr>) \<noteq> 0
   \<and> (3000 - lastFrameTime ((playingWith [])\<lparr>lastFrameTime := 1000, lastPipeTime := 1000\<rparr>)) / 1000 = 2
   \<and> frameDelta 3000 ((playingWith [])\<lparr>lastFrameTime := 1000, lastPipeTime := 1000\<rparr>) = 0.05
   \<and> birdVelocity (gameLoop samplePage 3000
         ((playingWith [])\<lparr>lastFrameTime := 1000, lastPipeTime := 1000\<rparr>)) = 1.35
   \<and> lastFrameTime (gameLoop samplePage 3000
         ((playingWith [])\<lparr>lastFrameTime := 1000, lastPipeTime := 1000\<rparr>)) = 3000
   \<and> (1016 - lastFrameTime ((playingWith [])\<lparr>lastFrameTime := 1000, lastPipeTime := 1000\<rparr>)) / 1000 = 0.016
   \<and> frameDelta 1016 ((playingWith [])\<lparr>lastFrameTime := 1000, lastPipeTime := 1000\<rparr>) = 0.016
   \<and> birdVelocity (gameLoop samplePage 1016
         ((playingWith [])\<lparr>lastFrameTime := 1000, lastPipeTime := 1000\<rparr>)) = 0.432
   \<and> lastFrameTime (playingWith []) = 0
   \<and> frameDelta 5000 (playingWith []) = 0
   \<and> birdVelocity (gameLoop samplePage 5000 (playingWith [])) = 0"
  using frame_step_is_clamped
      [of 3000 "(playingWith [])\<lparr>lastFrameTime := 1000, lastPipeTime := 1000\<rparr>" samplePage]
    frame_step_is_clamped
      [of 1016 "(playingWith [])\<lparr>lastFrameTime := 1000, lastPipeTime := 1000\<rparr>" samplePage]
    frame_step_is_clamped [of 5000 "playingWith []" samplePage]
  by (simp add: playingWith_def initialState_def)

text \<open>
  The clamp of the claim is missed after a frame at the timestamp 0. That frame
  records the time 0; the next frame, five seconds later, reads it as unset, uses the
  step 0 instead of 0.05 and leaves the bird as it is.
\<close>

theorem gap_after_frame_at_zero_is_not_clamped:
  "gameState (run (init sampleSizes (initialState None))
      [Input sampleSizes MouseDown, Frame samplePage 0]) = Playing
   \<and> lastFrameTime (run (init sampleSizes (initialState None))
      [Input sampleSizes MouseDown, Frame samplePage 0]) = 0
   \<and> (5000 - 0) / 1000 > (0.05 :: real)
   \<and> frameDelta 5000 (run (init sampleSizes (initialState None))
      [Input sampleSizes MouseDown, Frame samplePage 0]) = 0
   \<and> frameDelta 5000 (run (init sampleSizes (initialState None))
      [Input sampleSizes MouseDown, Frame samplePage 0]) \<noteq> 0.05
   \<and> birdVelocity (run (init sampleSizes (initialState None))
      [Input sampleSizes MouseDown, Frame samplePage 0]) = - 8.5
   \<and> birdVelocity (run (init sampleSizes (initialState None))
      [Input sampleSizes MouseDown, Frame samplePage 0, Frame samplePage 5000]) = - 8.5
   \<and> birdY (run (init sampleSizes (initialState None))
      [Input sampleSizes MouseDown, Frame samplePage 0, Frame samplePage 5000]) =
     birdY (run (init sampleSizes (initialState None))
      [Input sampleSizes MouseDown, Frame samplePage 0])"
  by (simp add: gameLoop_def Let_def initialState_def frameDelta_def
        createPipe_def pipeShape_def updatePipes_def movePipe_def hasCollision_def
        samplePage_def sampleSizes_def intersects_def requestFrame_def endGame_def
        run_def startPlaying_def resetGameState_def resetBird_def
        clearPipes_def init_def loadHighScore_def)

subsection \<open>Integration\<close>

text \<open>
  C2, as the code has it. A frame that arrives 0.1 seconds after the recorded time of
  the previous one is not integrated with a step of 0.1. When that recorded time is not
  0 the step is clamped to 0.05: with a gravity of 0.45 the velocity grows by
  \<open>0.45 * 60 * 0.05\<close> and the position by the new velocity times \<open>60 * 0.05\<close>, and
  from velocity 0 the velocity after the frame is 1.35 and the position has grown by
  4.05. When the recorded time is 0, which the game reads as no frame so far, the step
  is 0 and the velocity and the position stay as they are.
\<close>

theorem integrate_with_clamped_step:
  assumes "gameState s = Playing" and "gravity s = 0.45"
      and "(now - lastFrameTime s) / 1000 = 0.1"
  shows "(lastFrameTime s \<noteq> 0 \<longrightarrow>
            birdVelocity (gameLoop e now s) = birdVelocity s + 0.45 * 60 * 0.05
          \<and> birdY (gameLoop e now s) = birdY s + birdVelocity (gameLoop e now s) * 60 * 0.05
          \<and> (birdVelocity s = 0 \<longrightarrow>
               birdVelocity (gameLoop e now s) = 1.35
             \<and> birdY (gameLoop e now s) = birdY s + 4.05))
       \<and> (lastFrameTime s = 0 \<longrightarrow>
            birdVelocity (gameLoop e now s) = birdVelocity s
          \<and> birdY (gameLoop e now s) = birdY s)"
proof (intro conjI impI)
  assume recorded: "lastFrameTime s \<noteq> 0"
  have d: "frameDelta now s = 0.05"
    using recorded assms(3) by (simp add: frameDelta_clamped)
  show "birdVelocity (gameLoop e now s) = birdVelocity s + 0.45 * 60 * 0.05"
    by (simp add: gameLoop_bird [OF assms(1)] d assms(2))
  show "birdY (gameLoop e now s) = birdY s + birdVelocity (gameLoop e now s) * 60 * 0.05"
    by (simp add: gameLoop_bird [OF assms(1)] d assms(2))
  show "birdVelocity (gameLoop e now s) = 1.35" if "birdVelocity s = 0"
    by (simp add: gameLoop_bird [OF assms(1)] d assms(2) that)
  show "birdY (gameLoop e now s) = birdY s + 4.05" if "birdVelocity s = 0"
    by (simp add: gameLoop_bird [OF assms(1)] d assms(2) that)
next
  assume unset: "lastFrameTime s = 0"
  have d: "frameDelta now s = 0"
    using unset by (simp add: frameDelta_eq)
  show "birdVelocity (gameLoop e now s) = birdVelocity s"
    by (simp add: gameLoop_bird [OF assms(1)] d)
  show "birdY (gameLoop e now s) = birdY s"
    by (simp add: gameLoop_bird [OF assms(1)] d)
qed

theorem integrate_with_clamped_step_witness:
  "gameState ((playingWith [])\<lparr>lastFrameTime := 1000, lastPipeTime := 1000\<rparr>) = Playing
   \<and> lastFrameTime ((playingWith [])\<lparr>lastFrameTime := 1000, lastPipeTime := 1000\<rparr>) \<noteq> 0
   \<and> gravity ((playingWith [])\<lparr>lastFrameTime := 1000, lastPipeTime := 1000\<rparr>) = 0.45
   \<and> (1100 - lastFrameTime ((playingWith [])\<lparr>lastFrameTime := 1000, lastPipeTime := 1000\<rparr>)) / 1000 = 0.1
   \<and> birdVelocity ((playingWith [])\<lparr>lastFrameTime := 1000, lastPipeTime := 1000\<rparr>) = 0
   \<and> birdVelocity (gameLoop samplePage 1100
        ((playingWith [])\<lparr>lastFrameTime := 1000, lastPipeTime := 1000\<rparr>)) = 1.35
   \<and> birdY (gameLoop samplePage 1100
        ((playingWith [])\<lparr>lastFrameTime := 1000, lastPipeTime := 1000\<rparr>)) = 4.05
   \<and> gameState (playingWith []) = Playing
   \<and> lastFrameTime (playingWith []) = 0
   \<and> gravity (playingWith []) = 0.45
   \<and> (100 - lastFrameTime (playingWith [])) / 1000 = 0.1
   \<and> birdVelocity (gameLoop samplePage 100 (playingWith [])) = 0
   \<and> birdY (gameLoop samplePage 100 (playingWith [])) = 0"
  using integrate_with_clamped_step
      [of "(playingWith [])\<lparr>lastFrameTime := 1000, lastPipeTime := 1000\<rparr>" 1100 samplePage]
    integrate_with_clamped_step [of "playingWith []" 100 samplePage]
  by (simp add: playingWith_def initialState_def)

text \<open>
  The values of the claim are not reached: in play, at rest, with a gravity of 0.45, a
  frame 0.1 seconds after the last one leaves the velocity at 1.35, not 2.7, and moves
  the bird by 4.05, not 16.2.
\<close>

theorem elapsed_tenth_velocity_not_2_7:
  "gameState ((playingWith [])\<lparr>lastFrameTime := 1000, lastPipeTime := 1000\<rparr>) = Playing
   \<and> birdVelocity ((playingWith [])\<lparr>lastFrameTime := 1000, lastPipeTime := 1000\<rparr>) = 0
   \<and> gravity ((playingWith [])\<lparr>lastFrameTime := 1000, lastPipeTime := 1000\<rparr>) = 0.45
   \<and> (1100 - lastFrameTime ((playingWith [])\<lparr>lastFrameTime := 1000, lastPipeTime := 1000\<rparr>)) / 1000 = 0.1
   \<and> birdVelocity (gameLoop samplePage 1100
        ((playingWith [])\<lparr>lastFrameTime := 1000, lastPipeTime := 1000\<rparr>)) = 1.35
   \<and> birdVelocity (gameLoop samplePage 1100
        ((playingWith [])\<lparr>lastFrameTime := 1000, lastPipeTime := 1000\<rparr>)) \<noteq> 2.7
   \<and> birdY (gameLoop samplePage 1100
        ((playingWith [])\<lparr>lastFrameTime := 1000, lastPipeTime := 1000\<rparr>))
      - birdY ((playingWith [])\<lparr>lastFrameTime := 1000, lastPipeTime := 1000\<rparr>) = 4.05
   \<and> birdY (gameLoop samplePage 1100
        ((playingWith [])\<lparr>lastFrameTime := 1000, lastPipeTime := 1000\<rparr>))
      - birdY ((playingWith [])\<lparr>lastFrameTime := 1000, lastPipeTime := 1000\<rparr>) \<noteq> 16.2"
  by (simp add: gameLoop_bird frameDelta_def Let_def playingWith_def initialState_def)

subsection \<open>Spawning at timestamp zero\<close>

text \<open>A frame in play that spawns: the new gate stands at the back of the gates that the frame moves and evicts.\<close>

lemma gameLoop_spawn_gates:
  assumes "gameState s = Playing"
      and "lastPipeTime s = 0 \<or> now - lastPipeTime s \<ge> pipeInterval s"
  shows "pipes (gameLoop e now s) =
     filter (\<lambda>p. x p + pipeWidth s > - 10)
       (map (\<lambda>p. p\<lparr>x := x p - pipeSpeed s * 60 * frameDelta now s,
                   passed := (passed p \<or> birdX s + birdWidth (sizes e)
                                 > x p - pipeSpeed s * 60 * frameDelta now s + pipeWidth s)\<rparr>)
         (pipes s @
            [\<lparr> x = gameWidth (sizes e),
                topHeight = fst (pipeShape (sizes e) (random e) s),
                bottomY = fst (pipeShape (sizes e) (random e) s) + pipeGap s,
                passed = False, topEl = elements s, bottomEl = elements s + 1 \<rparr>]))"
  using assms(2) by (simp only: gameLoop_gates [OF assms(1)] createPipe_gates if_True)

lemma gameLoop_spawn_last:
  assumes "gameState s = Playing"
      and "lastPipeTime s = 0 \<or> now - lastPipeTime s \<ge> pipeInterval s"
      and "gameWidth (sizes e) - pipeSpeed s * 60 * frameDelta now s + pipeWidth s > - 10"
  shows "pipes (gameLoop e now s) \<noteq> []"
    and "topEl (last (pipes (gameLoop e now s))) = elements s"
    and "x (last (pipes (gameLoop e now s))) =
           gameWidth (sizes e) - pipeSpeed s * 60 * frameDelta now s"
  using assms(3) by (simp_all add: gameLoop_spawn_gates [OF assms(1,2)])

text \<open>
  C10. When a frame in play creates a gate at the timestamp 0, the gate joins the
  collection behind the gates already there, and the recorded time of the last spawn is
  0, the value that the spawn check reads as unset. If play goes on, the next frame
  creates another gate whatever its timestamp and whatever the interval: two more
  elements are created, and the collection of that frame is the old one with the new
  gate at the right edge behind it, moved, scored and evicted as every gate is; unless
  the new gate is evicted at once, it is the last gate of the collection. In general a
  spawning frame records its timestamp, so the recorded time differs from the unset
  value exactly when that timestamp is not 0.
\<close>

theorem spawn_at_time_zero_repeats:
  assumes "gameState s = Playing"
      and "lastPipeTime s = 0 \<or> 0 - lastPipeTime s \<ge> pipeInterval s"
  shows "elements (gameLoop e 0 s) = elements s + 2
       \<and> lastPipeTime (gameLoop e 0 s) = 0
       \<and> pipes (gameLoop e 0 s) =
           filter (\<lambda>p. x p + pipeWidth s > - 10)
             (map (\<lambda>p. p\<lparr>x := x p - pipeSpeed s * 60 * frameDelta 0 s,
                         passed := (passed p \<or> birdX s + birdWidth (sizes e)
                                       > x p - pipeSpeed s * 60 * frameDelta 0 s + pipeWidth s)\<rparr>)
               (pipes s @
                  [\<lparr> x = gameWidth (sizes e),
                      topHeight = fst (pipeShape (sizes e) (random e) s),
                      bottomY = fst (pipeShape (sizes e) (random e) s) + pipeGap s,
                      passed = False, topEl = elements s, bottomEl = elements s + 1 \<rparr>]))
       \<and> (gameState (gameLoop e 0 s) = Playing \<longrightarrow>
            (\<forall>e' now'.
               elements (gameLoop e' now' (gameLoop e 0 s)) = elements (gameLoop e 0 s) + 2
             \<and> lastPipeTime (gameLoop e' now' (gameLoop e 0 s)) = now'
             \<and> pipes (gameLoop e' now' (gameLoop e 0 s)) =
                 filter (\<lambda>p. x p + pipeWidth (gameLoop e 0 s) > - 10)
                   (map (\<lambda>p. p\<lparr>x := x p - pipeSpeed (gameLoop e 0 s) * 60
                                          * frameDelta now' (gameLoop e 0 s),
                               passed := (passed p
                                 \<or> birdX (gameLoop e 0 s) + birdWidth (sizes e')
                                     > x p - pipeSpeed (gameLoop e 0 s) * 60
                                               * frameDelta now' (gameLoop e 0 s)
                                         + pipeWidth (gameLoop e 0 s))\<rparr>)
                     (pipes (gameLoop e 0 s) @
                        [\<lparr> x = gameWidth (sizes e'),
                            topHeight = fst (pipeShape (sizes e') (random e') (gameLoop e 0 s)),
                            bottomY = fst (pipeShape (sizes e') (random e') (gameLoop e 0 s))
                                        + pipeGap (gameLoop e 0 s),
                            passed = False, topEl = elements (gameLoop e 0 s),
                            bottomEl = elements (gameLoop e 0 s) + 1 \<rparr>]))
             \<and> (gameWidth (sizes e') - pipeSpeed (gameLoop e 0 s) * 60
                                          * frameDelta now' (gameLoop e 0 s)
                    + pipeWidth (gameLoop e 0 s) > - 10 \<longrightarrow>
                  pipes (gameLoop e' now' (gameLoop e 0 s)) \<noteq> []
                \<and> topEl (last (pipes (gameLoop e' now' (gameLoop e 0 s))))
                    = elements (gameLoop e 0 s)
                \<and> x (last (pipes (gameLoop e' now' (gameLoop e 0 s))))
                    = gameWidth (sizes e') - pipeSpeed (gameLoop e 0 s) * 60
                                               * frameDelta now' (gameLoop e 0 s))))
       \<and> (\<forall>e' now'. lastPipeTime s = 0 \<or> now' - lastPipeTime s \<ge> pipeInterval s \<longrightarrow>
            lastPipeTime (gameLoop e' now' s) = now'
            \<and> (lastPipeTime (gameLoop e' now' s) \<noteq> 0 \<longleftrightarrow> now' \<noteq> 0))"
proof -
  let ?t = "gameLoop e 0 s"
  have 1: "elements ?t = elements s + 2 \<and> lastPipeTime ?t = 0"
    using gameLoop_spawn(1) [OF assms(1), of 0 e] assms(2) by simp
  have g: "pipes ?t =
           filter (\<lambda>p. x p + pipeWidth s > - 10)
             (map (\<lambda>p. p\<lparr>x := x p - pipeSpeed s * 60 * frameDelta 0 s,
                         passed := (passed p \<or> birdX s + birdWidth (sizes e)
                                       > x p - pipeSpeed s * 60 * frameDelta 0 s + pipeWidth s)\<rparr>)
               (pipes s @
                  [\<lparr> x = gameWidth (sizes e),
                      topHeight = fst (pipeShape (sizes e) (random e) s),
                      bottomY = fst (pipeShape (sizes e) (random e) s) + pipeGap s,
                      passed = False, topEl = elements s, bottomEl = elements s + 1 \<rparr>]))"
    by (rule gameLoop_spawn_gates [OF assms])
  have 2: "elements (gameLoop e' now' ?t) = elements ?t + 2
      \<and> lastPipeTime (gameLoop e' now' ?t) = now'
      \<and> pipes (gameLoop e' now' ?t) =
          filter (\<lambda>p. x p + pipeWidth ?t > - 10)
            (map (\<lambda>p. p\<lparr>x := x p - pipeSpeed ?t * 60 * frameDelta now' ?t,
                        passed := (passed p \<or> birdX ?t + birdWidth (sizes e')
                                      > x p - pipeSpeed ?t * 60 * frameDelta now' ?t
                                          + pipeWidth ?t)\<rparr>)
              (pipes ?t @
                 [\<lparr> x = gameWidth (sizes e'),
                     topHeight = fst (pipeShape (sizes e') (random e') ?t),
                     bottomY = fst (pipeShape (sizes e') (random e') ?t) + pipeGap ?t,
                     passed = False, topEl = elements ?t, bottomEl = elements ?t + 1 \<rparr>]))
      \<and> (gameWidth (sizes e') - pipeSpeed ?t * 60 * frameDelta now' ?t + pipeWidth ?t > - 10 \<longrightarrow>
            pipes (gameLoop e' now' ?t) \<noteq> []
          \<and> topEl (last (pipes (gameLoop e' now' ?t))) = elements ?t
          \<and> x (last (pipes (gameLoop e' now' ?t)))
              = gameWidth (sizes e') - pipeSpeed ?t * 60 * frameDelta now' ?t)"
    if play: "gameState ?t = Playing" for e' now'
  proof -
    have due: "lastPipeTime ?t = 0 \<or> now' - lastPipeTime ?t \<ge> pipeInterval ?t"
      using 1 by simp
    show ?thesis
      using gameLoop_spawn(1) [OF play due, of e'] gameLoop_spawn_gates [OF play due, of e']
        gameLoop_spawn_last [OF play due, of e']
      by blast
  qed
  have 3: "lastPipeTime (gameLoop e' now' s) = now'
      \<and> (lastPipeTime (gameLoop e' now' s) \<noteq> 0 \<longleftrightarrow> now' \<noteq> 0)"
    if "lastPipeTime s = 0 \<or> now' - lastPipeTime s \<ge> pipeInterval s" for e' now'
    using gameLoop_spawn(1) [OF assms(1), of now' e'] that by simp
  from 1 g 2 3 show ?thesis by blast
qed

theorem spawn_at_time_zero_repeats_witness:
  "gameState (playingWith []) = Playing
   \<and> lastPipeTime (playingWith []) = 0
   \<and> elements (gameLoop samplePage 0 (playingWith [])) = 2
   \<and> lastPipeTime (gameLoop samplePage 0 (playingWith [])) = 0
   \<and> map topEl (pipes (gameLoop samplePage 0 (playingWith []))) = [0]
   \<and> gameState (gameLoop samplePage 0 (playingWith [])) = Playing
   \<and> pipeInterval (gameLoop samplePage 0 (playingWith [])) = 1550
   \<and> elements (gameLoop samplePage 16 (gameLoop samplePage 0 (playingWith []))) = 4
   \<and> lastPipeTime (gameLoop samplePage 16 (gameLoop samplePage 0 (playingWith []))) = 16
   \<and> topEl (last (pipes (gameLoop samplePage 16 (gameLoop samplePage 0 (playingWith []))))) = 2
   \<and> x (last (pipes (gameLoop samplePage 16 (gameLoop samplePage 0 (playingWith []))))) = 400"
proof -
  let ?t = "gameLoop samplePage 0 (playingWith [])"
  have g: "gameState (playingWith []) = Playing" "lastPipeTime (playingWith []) = 0"
    "elements (playingWith []) = 0"
    by (simp_all add: playingWith_def initialState_def)
  have t: "?t = (playingWith [\<lparr> x = 400, topHeight = 140, bottomY = 310, passed = False,
                                topEl = 0, bottomEl = 1 \<rparr>])
                 \<lparr>elements := 2, animationFrameId := Some 1, frameRequests := 1\<rparr>"
    by (simp add: gameLoop_def Let_def playingWith_def initialState_def frameDelta_def
        createPipe_def pipeShape_def updatePipes_def movePipe_def hasCollision_def
        samplePage_def sampleSizes_def intersects_def requestFrame_def endGame_def)
  have f: "gameState ?t = Playing" "pipeInterval ?t = 1550" "map topEl (pipes ?t) = [0]"
    "frameDelta 16 ?t = 0" "pipeSpeed ?t = 2.4" "pipeWidth ?t = 68"
    "gameWidth (sizes samplePage) = 400"
    unfolding t
    by (simp_all add: playingWith_def initialState_def frameDelta_def samplePage_def
        sampleSizes_def)
  from spawn_at_time_zero_repeats [of "playingWith []" samplePage] g f
  show ?thesis by simp
qed

subsection \<open>Score and high score\<close>

lemma movePipe_highScore: "highScore s \<le> highScore (snd (movePipe m b p s))"
  by (simp add: movePipe_def Let_def saveHighScore_def)

lemma movePipe_bounded:
  "score s \<le> highScore s \<Longrightarrow> score (snd (movePipe m b p s)) \<le> highScore (snd (movePipe m b p s))"
  by (simp add: movePipe_def Let_def saveHighScore_def)

lemma movePipe_scored:
  "score (snd (movePipe m b p s)) = score s
   \<or> score (snd (movePipe m b p s)) \<le> highScore (snd (movePipe m b p s))"
  by (simp add: movePipe_def Let_def saveHighScore_def)

lemma movePipes_highScore: "highScore s \<le> highScore (snd (movePipes m b ps s))"
proof (induction ps arbitrary: s)
  case Nil
  show ?case by simp
next
  case (Cons p ps)
  have "highScore s \<le> highScore (snd (movePipe m b p s))"
    by (rule movePipe_highScore)
  also have "\<dots> \<le> highScore (snd (movePipes m b ps (snd (movePipe m b p s))))"
    by (rule Cons.IH)
  finally show ?case by (simp add: split_beta)
qed

lemma movePipes_bounded:
  "score s \<le> highScore s \<Longrightarrow>
     score (snd (movePipes m b ps s)) \<le> highScore (snd (movePipes m b ps s))"
  by (induction ps arbitrary: s) (simp_all add: split_beta movePipe_bounded)

lemma movePipes_scored:
  "score (snd (movePipes m b ps s)) = score s
   \<or> score (snd (movePipes m b ps s)) \<le> highScore (snd (movePipes m b ps s))"
proof (induction ps arbitrary: s)
  case Nil
  show ?case by simp
next
  case (Cons p ps)
  let ?t = "snd (movePipe m b p s)"
  have unroll: "snd (movePipes m b (p # ps) s) = snd (movePipes m b ps ?t)"
    by (simp add: split_beta)
  consider "score ?t = score s" | "score ?t \<le> highScore ?t"
    using movePipe_scored by blast
  then show ?case
  proof cases
    case 1
    with Cons.IH [of ?t] show ?thesis unfolding unroll by simp
  next
    case 2
    then show ?thesis unfolding unroll by (simp add: movePipes_bounded)
  qed
qed

lemma updatePipes_scores:
  "score (updatePipes sz d s) =
     score (snd (movePipes (pipeSpeed s * 60 * d) (birdX s + birdWidth sz) (pipes s) s))"
  "highScore (updatePipes sz d s) =
     highScore (snd (movePipes (pipeSpeed s * 60 * d) (birdX s + birdWidth sz) (pipes s) s))"
  by (simp_all add: updatePipes_def Let_def split_beta)

lemma updatePipes_highScore: "highScore s \<le> highScore (updatePipes sz d s)"
  by (simp add: updatePipes_scores movePipes_highScore)

lemma updatePipes_bounded:
  "score s \<le> highScore s \<Longrightarrow> score (updatePipes sz d s) \<le> highScore (updatePipes sz d s)"
  by (simp add: updatePipes_scores movePipes_bounded)

lemma updatePipes_scored:
  "score (updatePipes sz d s) = score s
   \<or> score (updatePipes sz d s) \<le> highScore (updatePipes sz d s)"
  unfolding updatePipes_scores by (rule movePipes_scored)

text \<open>The scores after a frame in play are those after the pass over the gates.\<close>

lemma gameLoop_scores:
  assumes "gameState s = Playing"
  shows "\<exists>t. score t = score s \<and> highScore t = highScore s
           \<and> score (gameLoop e now s) = score (updatePipes (sizes e) (frameDelta now s) t)
           \<and> highScore (gameLoop e now s) = highScore (updatePipes (sizes e) (frameDelta now s) t)"
proof -
  define t0 where "t0 = s\<lparr>lastFrameTime := now,
      birdVelocity := birdVelocity s + gravity s * 60 * frameDelta now s,
      birdY := birdY s + (birdVelocity s + gravity s * 60 * frameDelta now s) * 60 * frameDelta now s\<rparr>"
  define t where "t = (if lastPipeTime s = 0 \<or> now - lastPipeTime s \<ge> pipeInterval s
      then createPipe e now t0 else t0)"
  have "score t = score s \<and> highScore t = highScore s"
    by (simp add: t_def t0_def createPipe_def split_beta)
  moreover have "gameLoop e now s =
      (if hasCollision e (updatePipes (sizes e) (frameDelta now s) t)
       then endGame (updatePipes (sizes e) (frameDelta now s) t)
       else requestFrame (updatePipes (sizes e) (frameDelta now s) t))"
    using assms by (simp add: gameLoop_def Let_def t_def t0_def)
  then have "score (gameLoop e now s) = score (updatePipes (sizes e) (frameDelta now s) t)
      \<and> highScore (gameLoop e now s) = highScore (updatePipes (sizes e) (frameDelta now s) t)"
    by (simp add: endGame_def requestFrame_def)
  ultimately show ?thesis by blast
qed

lemma gameLoop_highScore: "highScore s \<le> highScore (gameLoop e now s)"
proof (cases "gameState s = Playing")
  case True
  then show ?thesis using gameLoop_scores [OF True, of e now] updatePipes_highScore
    by metis
next
  case False
  then show ?thesis by (simp add: gameLoop_def)
qed

lemma gameLoop_bounded:
  assumes "score s \<le> highScore s"
  shows "score (gameLoop e now s) \<le> highScore (gameLoop e now s)"
proof (cases "gameState s = Playing")
  case True
  then show ?thesis using gameLoop_scores [OF True, of e now] updatePipes_bounded assms
    by metis
next
  case False
  then show ?thesis using assms by (simp add: gameLoop_def)
qed

lemma gameLoop_scored:
  "score (gameLoop e now s) = score s \<or> score (gameLoop e now s) \<le> highScore (gameLoop e now s)"
proof (cases "gameState s = Playing")
  case True
  then show ?thesis using gameLoop_scores [OF True, of e now] updatePipes_scored
    by metis
next
  case False
  then show ?thesis by (simp add: gameLoop_def)
qed

lemma startPlaying_highScore: "highScore (startPlaying sz s) = highScore s"
  by (simp add: startPlaying_def resetGameState_def resetBird_def clearPipes_def
      requestFrame_def Let_def split: game_state.splits)

lemma startPlaying_bounded:
  "score s \<le> highScore s \<Longrightarrow> 0 \<le> highScore s \<Longrightarrow>
     score (startPlaying sz s) \<le> highScore (startPlaying sz s)"
  by (simp add: startPlaying_def resetGameState_def resetBird_def clearPipes_def
      requestFrame_def Let_def split: game_state.splits)

lemma step_highScore: "highScore s \<le> highScore (step s ev)"
proof (cases ev)
  case (Input sz i)
  then show ?thesis by (cases i) (simp_all add: startPlaying_highScore)
next
  case (Frame e now)
  then show ?thesis by (simp add: gameLoop_highScore)
next
  case (Resize sz)
  then show ?thesis by (simp add: resetBird_def)
qed

lemma step_bounded:
  assumes "score s \<le> highScore s" "0 \<le> highScore s"
  shows "score (step s ev) \<le> highScore (step s ev)"
proof (cases ev)
  case (Input sz i)
  then show ?thesis using assms by (cases i) (simp_all add: startPlaying_bounded)
next
  case (Frame e now)
  then show ?thesis using assms by (simp add: gameLoop_bounded)
next
  case (Resize sz)
  then show ?thesis using assms by (simp add: resetBird_def)
qed

lemma run_highScore: "highScore s \<le> highScore (run s evs)"
proof (induction evs arbitrary: s)
  case Nil
  show ?case by (simp add: run_def)
next
  case (Cons ev evs)
  have "highScore s \<le> highScore (step s ev)" by (rule step_highScore)
  also have "\<dots> \<le> highScore (run (step s ev) evs)" by (rule Cons.IH)
  finally show ?case by (simp add: run_def)
qed

lemma run_bounded:
  "score s \<le> highScore s \<Longrightarrow> 0 \<le> highScore s \<Longrightarrow> score (run s evs) \<le> highScore (run s evs)"
proof (induction evs arbitrary: s)
  case Nil
  then show ?case by (simp add: run_def)
next
  case (Cons ev evs)
  have "score (step s ev) \<le> highScore (step s ev)"
    using Cons.prems by (rule step_bounded)
  moreover have "0 \<le> highScore (step s ev)"
    using Cons.prems(2) step_highScore [of s ev] by linarith
  ultimately have "score (run (step s ev) evs) \<le> highScore (run (step s ev) evs)"
    by (rule Cons.IH)
  then show ?case by (simp add: run_def)
qed

lemma init_scores:
  "score (init sz (initialState stored)) = 0"
  "0 \<le> highScore (init sz (initialState stored))"
  "highScore (initialState stored) = 0"
  by (simp_all add: init_def resetGameState_def resetBird_def clearPipes_def loadHighScore_def
      initialState_def split: option.splits)

text \<open>
  C4. Whenever a frame changes the score, the score is at most the high score
  afterwards. No sequence of inputs, frames and resizes lowers the high score, and
  neither does the start of the program, which loads it over the initial 0. In every
  state that the program reaches the score is at most the high score.
\<close>

theorem highScore_never_decreases:
  "(score (gameLoop e now s) \<noteq> score s \<longrightarrow>
      score (gameLoop e now s) \<le> highScore (gameLoop e now s))
   \<and> highScore s \<le> highScore (run s evs)
   \<and> highScore (initialState stored) \<le> highScore (init sz (initialState stored))
   \<and> score (run (init sz (initialState stored)) evs)
        \<le> highScore (run (init sz (initialState stored)) evs)"
proof -
  have "score (run (init sz (initialState stored)) evs)
        \<le> highScore (run (init sz (initialState stored)) evs)"
    by (rule run_bounded) (simp_all add: init_scores)
  then show ?thesis
    using gameLoop_scored [of e now s] run_highScore [of s evs] init_scores(3) [of stored] init_scores(2) [of sz stored]
    by auto
qed

theorem highScore_never_decreases_witness:
  "score ((playingWith [freshGate 0 0])\<lparr>lastFrameTime := 1000, lastPipeTime := 1000\<rparr>) = 0
   \<and> score (gameLoop samplePage 1016
        ((playingWith [freshGate 0 0])\<lparr>lastFrameTime := 1000, lastPipeTime := 1000\<rparr>)) = 1
   \<and> highScore (gameLoop samplePage 1016
        ((playingWith [freshGate 0 0])\<lparr>lastFrameTime := 1000, lastPipeTime := 1000\<rparr>)) = 1
   \<and> gameState (run ((playingWith [freshGate 0 0])\<lparr>lastFrameTime := 1000, lastPipeTime := 1000\<rparr>)
        [Frame samplePage 1016,
         Frame (samplePage\<lparr>birdRect := \<lparr> left = 90, right = 130, top' = 0, bottom = 28 \<rparr>\<rparr>) 1032])
       = GameOver
   \<and> score (run ((playingWith [freshGate 0 0])\<lparr>lastFrameTime := 1000, lastPipeTime := 1000\<rparr>)
        [Frame samplePage 1016,
         Frame (samplePage\<lparr>birdRect := \<lparr> left = 90, right = 130, top' = 0, bottom = 28 \<rparr>\<rparr>) 1032,
         Input sampleSizes MouseDown]) = 0
   \<and> highScore (run ((playingWith [freshGate 0 0])\<lparr>lastFrameTime := 1000, lastPipeTime := 1000\<rparr>)
        [Frame samplePage 1016,
         Frame (samplePage\<lparr>birdRect := \<lparr> left = 90, right = 130, top' = 0, bottom = 28 \<rparr>\<rparr>) 1032,
         Input sampleSizes MouseDown]) = 1"
  using highScore_never_decreases
      [of samplePage 1016
          "(playingWith [freshGate 0 0])\<lparr>lastFrameTime := 1000, lastPipeTime := 1000\<rparr>"
          "[Frame samplePage 1016,
            Frame (samplePage\<lparr>birdRect := \<lparr> left = 90, right = 130, top' = 0, bottom = 28 \<rparr>\<rparr>) 1032,
            Input sampleSizes MouseDown]"
          None sampleSizes]
  by (simp add: gameLoop_def Let_def playingWith_def initialState_def frameDelta_def
      updatePipes_def movePipe_def hasCollision_def samplePage_def sampleSizes_def
      intersects_def requestFrame_def endGame_def freshGate_def scoredGate_def
      saveHighScore_def run_def startPlaying_def resetGameState_def resetBird_def
      clearPipes_def)

subsection \<open>Scoring a gate once\<close>

lemma movePipe_passed: "passed p \<Longrightarrow> movePipe m b p s = (p\<lparr>x := x p - m\<rparr>, s)"
  by (simp add: movePipe_def Let_def)

lemma movePipe_unscored:
  "\<not> passed p \<Longrightarrow>
     score (snd (movePipe m b p s)) =
       score s + (if passed (fst (movePipe m b p s)) then 1 else 0)"
  by (simp add: movePipe_def Let_def saveHighScore_def)

lemma movePipe_keeps_flag: "passed p \<Longrightarrow> passed (fst (movePipe m b p s))"
  by (simp add: movePipe_passed)

lemma movePipe_balance:
  "score (snd (movePipe m b p s)) + (if passed (fst (movePipe m b p s)) then 0 else 1) =
     score s + (if passed p then 0 else 1)"
  by (simp add: movePipe_def Let_def saveHighScore_def)

lemma movePipes_balance:
  "score (snd (movePipes m b ps s))
     + real (length (filter (\<lambda>p. \<not> passed p) (fst (movePipes m b ps s)))) =
   score s + real (length (filter (\<lambda>p. \<not> passed p) ps))"
proof (induction ps arbitrary: s)
  case Nil
  show ?case by simp
next
  case (Cons p ps)
  let ?t = "snd (movePipe m b p s)" and ?q = "fst (movePipe m b p s)"
  have unroll: "movePipes m b (p # ps) s =
      (?q # fst (movePipes m b ps ?t), snd (movePipes m b ps ?t))"
    by (simp add: split_beta)
  have "score (snd (movePipes m b ps ?t))
     + real (length (filter (\<lambda>p. \<not> passed p) (fst (movePipes m b ps ?t)))) =
   score ?t + real (length (filter (\<lambda>p. \<not> passed p) ps))"
    by (rule Cons.IH)
  with movePipe_balance [of m b p s] show ?case
    unfolding unroll by (simp split: if_splits)
qed

lemma movePipes_score_mono: "score s \<le> score (snd (movePipes m b ps s))"
proof (induction ps arbitrary: s)
  case Nil
  show ?case by simp
next
  case (Cons p ps)
  have "score s \<le> score (snd (movePipe m b p s))"
    by (simp add: movePipe_def Let_def saveHighScore_def)
  also have "\<dots> \<le> score (snd (movePipes m b ps (snd (movePipe m b p s))))"
    by (rule Cons.IH)
  finally show ?case by (simp add: split_beta)
qed

lemma movePipes_descend:
  "list_all2 (\<lambda>p q. topEl q = topEl p \<and> bottomEl q = bottomEl p \<and> (passed p \<longrightarrow> passed q))
     ps (fst (movePipes m b ps s))"
proof (induction ps arbitrary: s)
  case Nil
  show ?case by simp
next
  case (Cons p ps)
  have "passed p \<longrightarrow> passed (fst (movePipe m b p s))"
    by (simp add: movePipe_keeps_flag)
  with Cons.IH [of "snd (movePipe m b p s)"] show ?case
    by (simp add: split_beta movePipe_pipe)
qed

lemma updatePipes_descend:
  assumes "q \<in> set (pipes (updatePipes sz d s))"
  shows "\<exists>p \<in> set (pipes s). topEl q = topEl p \<and> bottomEl q = bottomEl p \<and> (passed p \<longrightarrow> passed q)"
proof -
  let ?M = "fst (movePipes (pipeSpeed s * 60 * d) (birdX s + birdWidth sz) (pipes s) s)"
  have "q \<in> set ?M"
    using assms by (simp add: updatePipes_filter)
  then obtain i where i: "i < length ?M" "q = ?M ! i"
    by (auto simp: in_set_conv_nth)
  have all2: "list_all2 (\<lambda>p q. topEl q = topEl p \<and> bottomEl q = bottomEl p \<and> (passed p \<longrightarrow> passed q))
     (pipes s) ?M"
    by (rule movePipes_descend)
  then have len: "length (pipes s) = length ?M"
    by (rule list_all2_lengthD)
  have "topEl q = topEl (pipes s ! i) \<and> bottomEl q = bottomEl (pipes s ! i)
      \<and> (passed (pipes s ! i) \<longrightarrow> passed q)"
    using list_all2_nthD2 [OF all2 i(1)] i(2) by simp
  moreover have "pipes s ! i \<in> set (pipes s)"
    using i(1) len by simp
  ultimately show ?thesis by blast
qed

lemma updatePipes_balance:
  "score (updatePipes sz d s)
     + real (length (filter (\<lambda>p. \<not> passed p) (pipes (updatePipes sz d s))))
   \<le> score s + real (length (filter (\<lambda>p. \<not> passed p) (pipes s)))"
proof -
  let ?r = "movePipes (pipeSpeed s * 60 * d) (birdX s + birdWidth sz) (pipes s) s"
  have "filter (\<lambda>p. \<not> passed p) (pipes (updatePipes sz d s)) =
      filter (\<lambda>p. x p + pipeWidth s > - 10) (filter (\<lambda>p. \<not> passed p) (fst ?r))"
    by (simp add: updatePipes_filter conj_commute)
  then have "length (filter (\<lambda>p. \<not> passed p) (pipes (updatePipes sz d s)))
      \<le> length (filter (\<lambda>p. \<not> passed p) (fst ?r))"
    by (simp only: length_filter_le)
  moreover have "score (updatePipes sz d s) = score (snd ?r)"
    by (simp add: updatePipes_def Let_def split_beta)
  ultimately show ?thesis
    using movePipes_balance [of "pipeSpeed s * 60 * d" "birdX s + birdWidth sz" "pipes s" s]
    by linarith
qed

lemma updatePipes_score_mono: "score s \<le> score (updatePipes sz d s)"
  by (simp add: updatePipes_def Let_def split_beta movePipes_score_mono)

lemma repeated_balance:
  "score (foldl (\<lambda>t (sz, d). updatePipes sz d t) s calls)
     + real (length (filter (\<lambda>p. \<not> passed p)
         (pipes (foldl (\<lambda>t (sz, d). updatePipes sz d t) s calls))))
   \<le> score s + real (length (filter (\<lambda>p. \<not> passed p) (pipes s)))"
proof (induction calls arbitrary: s)
  case Nil
  show ?case by simp
next
  case (Cons c calls)
  obtain sz d where c: "c = (sz, d)" by (cases c)
  show ?case
    using Cons.IH [of "updatePipes sz d s"] updatePipes_balance [of sz d s]
    by (simp add: c)
qed

lemma repeated_score_mono:
  "score s \<le> score (foldl (\<lambda>t (sz, d). updatePipes sz d t) s calls)"
proof (induction calls arbitrary: s)
  case Nil
  show ?case by simp
next
  case (Cons c calls)
  obtain sz d where c: "c = (sz, d)" by (cases c)
  show ?case
    using Cons.IH [of "updatePipes sz d s"] updatePipes_score_mono [of s sz d]
    by (simp add: c)
qed

text \<open>
  C6. The pass over a gate that is already scored moves it and changes nothing else:
  the flag stays set and the score, the high score and the storage are untouched. The
  pass over a gate that is not yet scored adds 1 to the score exactly when it sets the
  flag. Every gate that survives a call of \<^verbatim>\<open>updatePipes\<close> is one of the gates before
  the call, and a set flag is still set. Over any number of successive calls the score
  does not fall, and what it gains is at most the number of gates that lose the
  unscored status; when every gate is already scored, the score does not change at all.
\<close>

theorem gate_scored_at_most_once:
  "(passed p \<longrightarrow> movePipe m b p s = (p\<lparr>x := x p - m\<rparr>, s))
   \<and> (\<not> passed p \<longrightarrow>
        score (snd (movePipe m b p s)) =
          score s + (if passed (fst (movePipe m b p s)) then 1 else 0))
   \<and> (\<forall>h \<in> set (pipes (updatePipes sz d s)).
        \<exists>g \<in> set (pipes s). topEl h = topEl g \<and> bottomEl h = bottomEl g
                            \<and> (passed g \<longrightarrow> passed h))
   \<and> score s \<le> score (foldl (\<lambda>t (sz', d'). updatePipes sz' d' t) s calls)
   \<and> score (foldl (\<lambda>t (sz', d'). updatePipes sz' d' t) s calls)
        + real (length (filter (\<lambda>g. \<not> passed g)
            (pipes (foldl (\<lambda>t (sz', d'). updatePipes sz' d' t) s calls))))
      \<le> score s + real (length (filter (\<lambda>g. \<not> passed g) (pipes s)))
   \<and> ((\<forall>g \<in> set (pipes s). passed g) \<longrightarrow>
        score (foldl (\<lambda>t (sz', d'). updatePipes sz' d' t) s calls) = score s)"
proof -
  have "score (foldl (\<lambda>t (sz, d). updatePipes sz d t) s calls) = score s"
    if "\<forall>p \<in> set (pipes s). passed p"
  proof -
    from that have "filter (\<lambda>p. \<not> passed p) (pipes s) = []"
      by (simp add: filter_empty_conv)
    with repeated_balance [of s calls] repeated_score_mono [of s calls]
    show ?thesis by simp
  qed
  then show ?thesis
    using movePipe_passed [of p m b s] movePipe_unscored [of p m b s]
      updatePipes_descend [of _ sz d s] repeated_score_mono [of s calls]
      repeated_balance [of s calls]
    by blast
qed

theorem gate_scored_at_most_once_witness:
  "passed (scoredGate (- 50) 2)
   \<and> movePipe 1 130 (scoredGate (- 50) 2) (playingWith [freshGate 0 0, scoredGate (- 50) 2]) =
       (scoredGate (- 51) 2, playingWith [freshGate 0 0, scoredGate (- 50) 2])
   \<and> \<not> passed (freshGate 0 0)
   \<and> score (snd (movePipe 1 130 (freshGate 0 0) (playingWith [freshGate 0 0, scoredGate (- 50) 2]))) = 1
   \<and> score (foldl (\<lambda>t (sz, d). updatePipes sz d t) (playingWith [freshGate 0 0, scoredGate (- 50) 2])
        [(sampleSizes, 1 / 100), (sampleSizes, 1 / 100), (sampleSizes, 1 / 100)]) = 1
   \<and> list_all passed (pipes (playingWith [scoredGate 0 0]))
   \<and> score (foldl (\<lambda>t (sz, d). updatePipes sz d t) (playingWith [scoredGate 0 0])
        [(sampleSizes, 1 / 100), (sampleSizes, 1 / 100), (sampleSizes, 1 / 100)]) = 0"
  using gate_scored_at_most_once
      [of "scoredGate (- 50) 2" 1 130 "playingWith [freshGate 0 0, scoredGate (- 50) 2]"
          sampleSizes 0 "[(sampleSizes, 1 / 100), (sampleSizes, 1 / 100), (sampleSizes, 1 / 100)]"]
    gate_scored_at_most_once
      [of "freshGate 0 0" 1 130 "playingWith [scoredGate 0 0]"
          sampleSizes 0 "[(sampleSizes, 1 / 100), (sampleSizes, 1 / 100), (sampleSizes, 1 / 100)]"]
  by (simp add: playingWith_def initialState_def scoredGate_def freshGate_def sampleSizes_def
      updatePipes_def movePipe_def Let_def saveHighScore_def)

subsection \<open>The gates as a queue\<close>

lemma filter_sorted_is_drop:
  fixes f :: "'a \<Rightarrow> real"
  assumes "sorted (map f xs)" and "\<And>a b. P a \<Longrightarrow> f a \<le> f b \<Longrightarrow> P b"
  shows "\<exists>k. filter P xs = drop k xs"
  using assms(1)
proof (induction xs)
  case Nil
  show ?case by simp
next
  case (Cons a xs)
  show ?case
  proof (cases "P a")
    case True
    have "P b" if "b \<in> set xs" for b
      using Cons.prems that assms(2) [OF True, of b] by auto
    then have "filter P (a # xs) = drop 0 (a # xs)"
      using True by simp
    then show ?thesis by blast
  next
    case False
    from Cons obtain k where "filter P xs = drop k xs" by auto
    with False have "filter P (a # xs) = drop (Suc k) (a # xs)" by simp
    then show ?thesis by blast
  qed
qed

lemma frameDelta_nonneg:
  "lastFrameTime s = 0 \<or> lastFrameTime s \<le> now \<Longrightarrow> 0 \<le> frameDelta now s"
  by (auto simp: frameDelta_def Let_def)

text \<open>The gates that a frame in play works on: those of the state, and the new one if it spawns.\<close>

lemma spawned_pipes:
  "pipes (if lastPipeTime s = 0 \<or> now - lastPipeTime s \<ge> pipeInterval s
          then createPipe e now s else s) = pipes s
   \<or> (\<exists>np. x np = gameWidth (sizes e) \<and> topEl np = elements s
        \<and> (lastPipeTime s = 0 \<or> now - lastPipeTime s \<ge> pipeInterval s)
        \<and> pipes (if lastPipeTime s = 0 \<or> now - lastPipeTime s \<ge> pipeInterval s
                  then createPipe e now s else s) = pipes s @ [np])"
  by (simp add: createPipe_def split_beta)

lemma gameLoop_queue:
  assumes play: "gameState s = Playing"
      and speed: "0 \<le> pipeSpeed s"
      and sorted: "sorted (map x (pipes s))"
      and bound: "\<forall>p \<in> set (pipes s). x p \<le> gameWidth (sizes e)"
      and time: "lastFrameTime s = 0 \<or> lastFrameTime s \<le> now"
  shows "sorted (map x (pipes (gameLoop e now s)))"
    and "\<forall>p \<in> set (pipes (gameLoop e now s)). x p \<le> gameWidth (sizes e)"
    and "\<exists>k new. map topEl (pipes (gameLoop e now s)) = drop k (map topEl (pipes s)) @ new
           \<and> set new \<subseteq> {elements s} \<and> length new \<le> 1"
proof -
  define L where "L = pipes (if lastPipeTime s = 0 \<or> now - lastPipeTime s \<ge> pipeInterval s
          then createPipe e now s else s)"
  define m where "m = pipeSpeed s * 60 * frameDelta now s"
  define Z where "Z = map (\<lambda>p. (topEl p, x p - m)) L"
  define P where "P = (\<lambda>(el :: nat, v). v + pipeWidth s > - 10)"
  have m: "0 \<le> m"
    using speed frameDelta_nonneg [OF time] by (simp add: m_def)
  have G: "map (\<lambda>p. (topEl p, x p)) (pipes (gameLoop e now s)) = filter P Z"
    unfolding P_def Z_def m_def L_def by (rule gameLoop_pipes [OF play])
  have Gx: "map x (pipes (gameLoop e now s)) = map snd (filter P Z)"
    using arg_cong [OF G, of "map snd"] by (simp add: comp_def)
  have Gt: "map topEl (pipes (gameLoop e now s)) = map fst (filter P Z)"
    using arg_cong [OF G, of "map fst"] by (simp add: comp_def)
  from spawned_pipes [of s now e]
  consider "L = pipes s"
    | np where "x np = gameWidth (sizes e)" "topEl np = elements s" "L = pipes s @ [np]"
    unfolding L_def by blast
  then have L: "sorted (map x L) \<and> (\<forall>p \<in> set L. x p \<le> gameWidth (sizes e))
      \<and> (\<exists>new. map topEl L = map topEl (pipes s) @ new \<and> set new \<subseteq> {elements s} \<and> length new \<le> 1)"
  proof cases
    case 1
    then show ?thesis using sorted bound by simp
  next
    case 2
    have "sorted (map x (pipes s @ [np]))"
      using sorted bound 2(1) by (simp add: sorted_append)
    moreover have "map topEl (pipes s @ [np]) = map topEl (pipes s) @ [elements s]"
      using 2(2) by simp
    ultimately show ?thesis using bound 2 by auto
  qed
  have Zs: "sorted (map snd Z)"
    using L by (simp add: Z_def comp_def sorted_map)
  have mono: "P b" if "P a" "snd a \<le> snd b" for a b
    using that by (auto simp: P_def split_beta)
  show "sorted (map x (pipes (gameLoop e now s)))"
    unfolding Gx using Zs by (rule sorted_filter)
  show "\<forall>p \<in> set (pipes (gameLoop e now s)). x p \<le> gameWidth (sizes e)"
  proof
    fix p assume "p \<in> set (pipes (gameLoop e now s))"
    then have "x p \<in> set (map x (pipes (gameLoop e now s)))" by simp
    then have "x p \<in> snd ` set Z" unfolding Gx by auto
    then obtain q where "q \<in> set L" "x p = x q - m" by (auto simp: Z_def)
    with L m show "x p \<le> gameWidth (sizes e)" by fastforce
  qed
  obtain k where k: "filter P Z = drop k Z"
    using filter_sorted_is_drop [of snd Z P, OF Zs] mono by blast
  obtain new where new: "map topEl L = map topEl (pipes s) @ new" "set new \<subseteq> {elements s}"
    "length new \<le> 1"
    using L by blast
  have "map topEl (pipes (gameLoop e now s)) = drop k (map topEl L)"
    unfolding Gt k by (simp add: Z_def drop_map comp_def)
  also have "\<dots> = drop k (map topEl (pipes s)) @ drop (k - length (pipes s)) new"
    by (simp add: new)
  finally show "\<exists>k new. map topEl (pipes (gameLoop e now s)) = drop k (map topEl (pipes s)) @ new
           \<and> set new \<subseteq> {elements s} \<and> length new \<le> 1"
    using new(2,3) set_drop_subset [of "k - length (pipes s)" new]
      length_drop [of "k - length (pipes s)" new]
    by (intro exI [of _ k] exI [of _ "drop (k - length (pipes s)) new"]) auto
qed

lemma gameLoop_tops:
  assumes play: "gameState s = Playing"
  shows "topEl ` set (pipes (gameLoop e now s)) \<subseteq> topEl ` set (pipes s)
       \<or> topEl ` set (pipes (gameLoop e now s)) \<subseteq> insert (elements s) (topEl ` set (pipes s))
          \<and> elements (gameLoop e now s) = elements s + 2"
    and "elements s \<le> elements (gameLoop e now s)"
proof -
  define L where "L = pipes (if lastPipeTime s = 0 \<or> now - lastPipeTime s \<ge> pipeInterval s
          then createPipe e now s else s)"
  have "map fst (map (\<lambda>p. (topEl p, x p)) (pipes (gameLoop e now s))) =
      map fst (filter (\<lambda>(el, v). v + pipeWidth s > - 10)
        (map (\<lambda>p. (topEl p, x p - pipeSpeed s * 60 * frameDelta now s)) L))"
    unfolding L_def by (simp only: gameLoop_pipes [OF play])
  then have "set (map topEl (pipes (gameLoop e now s))) \<subseteq>
      fst ` set (map (\<lambda>p. (topEl p, x p - pipeSpeed s * 60 * frameDelta now s)) L)"
    by (auto simp: comp_def)
  moreover have "fst ` set (map (\<lambda>p. (topEl p, x p - pipeSpeed s * 60 * frameDelta now s)) L)
      = topEl ` set L"
    by (simp add: image_image)
  ultimately have sub: "topEl ` set (pipes (gameLoop e now s)) \<subseteq> topEl ` set L"
    by simp
  from spawned_pipes [of s now e]
  consider "L = pipes s"
    | np where "topEl np = elements s" "L = pipes s @ [np]"
        "lastPipeTime s = 0 \<or> now - lastPipeTime s \<ge> pipeInterval s"
    unfolding L_def by blast
  then show "topEl ` set (pipes (gameLoop e now s)) \<subseteq> topEl ` set (pipes s)
       \<or> topEl ` set (pipes (gameLoop e now s)) \<subseteq> insert (elements s) (topEl ` set (pipes s))
          \<and> elements (gameLoop e now s) = elements s + 2"
  proof cases
    case 1
    with sub show ?thesis by simp
  next
    case 2
    have "elements (gameLoop e now s) = elements s + 2"
      using gameLoop_spawn(1) [OF play 2(3), of e] by simp
    moreover have "topEl ` set L = insert (elements s) (topEl ` set (pipes s))"
      using 2(1,2) by simp
    ultimately show ?thesis using sub by simp
  qed
  show "elements s \<le> elements (gameLoop e now s)"
    using gameLoop_spawn [OF play, of now e] by (cases "lastPipeTime s = 0 \<or> now - lastPipeTime s \<ge> pipeInterval s") simp_all
qed

lemma startPlaying_pipes:
  "pipes (startPlaying sz s) = pipes s \<or> pipes (startPlaying sz s) = []"
  "pipeSpeed (startPlaying sz s) = pipeSpeed s"
  "elements (startPlaying sz s) = elements s"
  by (simp_all add: startPlaying_def resetGameState_def resetBird_def clearPipes_def
      requestFrame_def Let_def split: game_state.splits)

lemma gameLoop_pipeSpeed: "pipeSpeed (gameLoop e now s) = pipeSpeed s"
  by (simp add: gameLoop_def Let_def endGame_def requestFrame_def updatePipes_frame
      createPipe_frame)

text \<open>What an input or a resize does to the gates: nothing, or it clears them.\<close>

lemma quiet_step:
  assumes "\<And>e now. ev \<noteq> Frame e now"
  shows "pipes (step s ev) = pipes s \<or> pipes (step s ev) = []"
    and "pipeSpeed (step s ev) = pipeSpeed s"
    and "elements (step s ev) = elements s"
proof -
  show "pipes (step s ev) = pipes s \<or> pipes (step s ev) = []"
  proof (cases ev)
    case (Input sz i)
    then show ?thesis using startPlaying_pipes(1) [of sz s] by (cases i) auto
  next
    case (Frame e now)
    with assms show ?thesis by blast
  next
    case (Resize sz)
    then show ?thesis by (simp add: resetBird_def)
  qed
  show "pipeSpeed (step s ev) = pipeSpeed s"
  proof (cases ev)
    case (Input sz i)
    then show ?thesis by (cases i) (simp_all add: startPlaying_pipes)
  next
    case (Frame e now)
    with assms show ?thesis by blast
  next
    case (Resize sz)
    then show ?thesis by (simp add: resetBird_def)
  qed
  show "elements (step s ev) = elements s"
  proof (cases ev)
    case (Input sz i)
    then show ?thesis by (cases i) (simp_all add: startPlaying_pipes)
  next
    case (Frame e now)
    with assms show ?thesis by blast
  next
    case (Resize sz)
    then show ?thesis by (simp add: resetBird_def)
  qed
qed

lemma step_pipeSpeed: "pipeSpeed (step s ev) = pipeSpeed s"
proof (cases "\<exists>e now. ev = Frame e now")
  case True
  then show ?thesis by (auto simp: gameLoop_pipeSpeed)
next
  case False
  then show ?thesis by (intro quiet_step(2)) blast
qed

lemma step_queue:
  assumes "calm W s ev" and "0 \<le> pipeSpeed s" and "sorted (map x (pipes s))"
      and "\<forall>p \<in> set (pipes s). x p \<le> W"
  shows "sorted (map x (pipes (step s ev)))"
    and "\<forall>p \<in> set (pipes (step s ev)). x p \<le> W"
    and "\<exists>k new. map topEl (pipes (step s ev)) = drop k (map topEl (pipes s)) @ new
           \<and> set new \<subseteq> {elements s} \<and> length new \<le> 1"
proof -
  have "sorted (map x (pipes (step s ev))) \<and> (\<forall>p \<in> set (pipes (step s ev)). x p \<le> W)
      \<and> (\<exists>k new. map topEl (pipes (step s ev)) = drop k (map topEl (pipes s)) @ new
           \<and> set new \<subseteq> {elements s} \<and> length new \<le> 1)"
  proof (cases "\<exists>e now. ev = Frame e now \<and> gameState s = Playing")
    case True
    then obtain e now where ev: "ev = Frame e now" and play: "gameState s = Playing" by blast
    from assms(1) ev have W: "gameWidth (sizes e) = W" and t: "lastFrameTime s = 0 \<or> lastFrameTime s \<le> now"
      by simp_all
    show ?thesis
      using gameLoop_queue [OF play assms(2,3) _ t, of e] assms(4) by (simp add: ev W)
  next
    case False
    have "pipes (step s ev) = pipes s \<or> pipes (step s ev) = []"
    proof (cases "\<exists>e now. ev = Frame e now")
      case True
      with False show ?thesis by (auto simp: gameLoop_def)
    next
      case False
      then show ?thesis by (intro quiet_step(1)) blast
    qed
    then show ?thesis
    proof
      assume same: "pipes (step s ev) = pipes s"
      have "map topEl (pipes s) = drop 0 (map topEl (pipes s)) @ [] \<and> set [] \<subseteq> {elements s} \<and> length ([] :: nat list) \<le> 1"
        by simp
      then show ?thesis using assms(3,4) unfolding same by blast
    next
      assume none: "pipes (step s ev) = []"
      have "map topEl [] = drop (length (pipes s)) (map topEl (pipes s)) @ []
          \<and> set [] \<subseteq> {elements s} \<and> length ([] :: nat list) \<le> 1"
        by simp
      then show ?thesis unfolding none by (simp del: drop_all) blast
    qed
  qed
  then show "sorted (map x (pipes (step s ev)))"
    and "\<forall>p \<in> set (pipes (step s ev)). x p \<le> W"
    and "\<exists>k new. map topEl (pipes (step s ev)) = drop k (map topEl (pipes s)) @ new
           \<and> set new \<subseteq> {elements s} \<and> length new \<le> 1"
    by blast+
qed

lemma step_numbered:
  assumes "\<forall>p \<in> set (pipes s). topEl p < elements s"
  shows "\<forall>p \<in> set (pipes (step s ev)). topEl p < elements (step s ev)"
    and "topEl ` set (pipes (step s ev)) \<subseteq> topEl ` set (pipes s) \<union> {n. elements s \<le> n}"
    and "elements s \<le> elements (step s ev)"
proof -
  have "(\<forall>p \<in> set (pipes (step s ev)). topEl p < elements (step s ev))
      \<and> topEl ` set (pipes (step s ev)) \<subseteq> topEl ` set (pipes s) \<union> {n. elements s \<le> n}
      \<and> elements s \<le> elements (step s ev)"
  proof (cases "\<exists>e now. ev = Frame e now")
    case True
    then obtain e now where ev: "ev = Frame e now" by blast
    show ?thesis
    proof (cases "gameState s = Playing")
      case True
      let ?G = "gameLoop e now s"
      note A = gameLoop_tops(1) [OF True, of e now] and B = gameLoop_tops(2) [OF True, of e now]
      have "topEl p < elements ?G" if "p \<in> set (pipes ?G)" for p
      proof -
        from that have "topEl p \<in> topEl ` set (pipes ?G)" by simp
        with A consider "topEl p \<in> topEl ` set (pipes s)"
          | "topEl p = elements s" "elements ?G = elements s + 2"
          by blast
        then show ?thesis
        proof cases
          case 1
          then obtain q where "q \<in> set (pipes s)" "topEl p = topEl q" by blast
          with assms B show ?thesis by fastforce
        next
          case 2
          then show ?thesis by simp
        qed
      qed
      moreover have "topEl ` set (pipes ?G) \<subseteq> topEl ` set (pipes s) \<union> {n. elements s \<le> n}"
        using A by auto
      ultimately show ?thesis
        using B by (simp add: ev)
    next
      case False
      then show ?thesis using assms by (simp add: ev gameLoop_def)
    qed
  next
    case False
    then have nf: "\<And>e now. ev \<noteq> Frame e now" by blast
    from quiet_step [OF nf, of s] assms show ?thesis by auto
  qed
  then show "\<forall>p \<in> set (pipes (step s ev)). topEl p < elements (step s ev)"
    and "topEl ` set (pipes (step s ev)) \<subseteq> topEl ` set (pipes s) \<union> {n. elements s \<le> n}"
    and "elements s \<le> elements (step s ev)"
    by blast+
qed

lemma run_Cons: "run s (ev # evs) = run (step s ev) evs"
  by (simp add: run_def)

lemma run_queue:
  assumes "steady W s evs" and "0 \<le> pipeSpeed s" and "sorted (map x (pipes s))"
      and "\<forall>p \<in> set (pipes s). x p \<le> W"
  shows "sorted (map x (pipes (run s evs))) \<and> (\<forall>p \<in> set (pipes (run s evs)). x p \<le> W)
       \<and> 0 \<le> pipeSpeed (run s evs)"
  using assms
proof (induction evs arbitrary: s)
  case Nil
  then show ?case by (simp add: run_def)
next
  case (Cons ev evs)
  from Cons.prems(1) have c: "calm W s ev" and st: "steady W (step s ev) evs" by simp_all
  show ?case
    unfolding run_Cons
    using Cons.IH [OF st] step_queue(1,2) [OF c Cons.prems(2,3,4)] Cons.prems(2)
    by (simp add: step_pipeSpeed)
qed

lemma run_numbered:
  assumes "\<forall>p \<in> set (pipes s). topEl p < elements s"
      and "n < elements s" and "n \<notin> topEl ` set (pipes s)"
  shows "n \<notin> topEl ` set (pipes (run s evs))"
  using assms
proof (induction evs arbitrary: s)
  case Nil
  then show ?case by (simp add: run_def)
next
  case (Cons ev evs)
  note sn = step_numbered [OF Cons.prems(1), of ev]
  have "n < elements (step s ev)"
    using Cons.prems(2) sn(3) by linarith
  moreover have "n \<notin> topEl ` set (pipes (step s ev))"
    using Cons.prems(2,3) sn(2) by auto
  ultimately show ?case
    unfolding run_Cons using Cons.IH [OF sn(1)] by blast
qed

lemma steady_snoc:
  "steady W s (evs @ [ev]) \<Longrightarrow> steady W s evs \<and> calm W (run s evs) ev"
  by (induction evs arbitrary: s) (simp_all add: run_def)

text \<open>
  C8, as the code has it. An element number that is already handed out and is not
  among the gates never comes back among them, whatever happens: a removed gate is not
  added again. In a steady run, with a speed that is not negative, the positions of the
  gates are in non-decreasing order of insertion at every moment, the oldest gate
  leftmost; and every event leaves the collection as the old one without some of its
  first gates, followed by at most one gate that is new. Gates leave at the front and
  enter at the back.
\<close>

theorem gates_form_a_queue:
  "((\<forall>p \<in> set (pipes s). topEl p < elements s) \<and> n < elements s
       \<and> n \<notin> topEl ` set (pipes s)
      \<longrightarrow> n \<notin> topEl ` set (pipes (run s evs)))
   \<and> (0 \<le> pipeSpeed s \<and> sorted (map x (pipes s)) \<and> (\<forall>p \<in> set (pipes s). x p \<le> W)
       \<and> steady W s (evs @ [ev])
      \<longrightarrow> sorted (map x (pipes (run s evs)))
        \<and> sorted (map x (pipes (run s (evs @ [ev]))))
        \<and> (\<exists>k new. map topEl (pipes (run s (evs @ [ev]))) =
                      drop k (map topEl (pipes (run s evs))) @ new
                    \<and> set new \<subseteq> {elements (run s evs)} \<and> length new \<le> 1))"
proof (intro conjI impI)
  assume "(\<forall>p \<in> set (pipes s). topEl p < elements s) \<and> n < elements s
       \<and> n \<notin> topEl ` set (pipes s)"
  then show "n \<notin> topEl ` set (pipes (run s evs))"
    using run_numbered by blast
next
  assume a: "0 \<le> pipeSpeed s \<and> sorted (map x (pipes s)) \<and> (\<forall>p \<in> set (pipes s). x p \<le> W)
       \<and> steady W s (evs @ [ev])"
  have split: "steady W s evs \<and> calm W (run s evs) ev"
    using a steady_snoc by blast
  have q: "sorted (map x (pipes (run s evs))) \<and> (\<forall>p \<in> set (pipes (run s evs)). x p \<le> W)
       \<and> 0 \<le> pipeSpeed (run s evs)"
    using run_queue [of W s evs] a split by blast
  have last: "run s (evs @ [ev]) = step (run s evs) ev"
    by (simp add: run_def)
  from q show "sorted (map x (pipes (run s evs)))" by blast
  from q split show "sorted (map x (pipes (run s (evs @ [ev]))))"
    unfolding last by (intro step_queue(1) [of W]) blast+
  from q split show "\<exists>k new. map topEl (pipes (run s (evs @ [ev]))) =
                      drop k (map topEl (pipes (run s evs))) @ new
                    \<and> set new \<subseteq> {elements (run s evs)} \<and> length new \<le> 1"
    unfolding last by (intro step_queue(3) [of W]) blast+
qed

theorem gates_form_a_queue_witness:
  "list_all (\<lambda>p. topEl p < elements ((playingWith [scoredGate (- 70) 2])
        \<lparr>elements := 4, lastFrameTime := 1000, lastPipeTime := 1000\<rparr>))
      (pipes ((playingWith [scoredGate (- 70) 2])
        \<lparr>elements := 4, lastFrameTime := 1000, lastPipeTime := 1000\<rparr>))
   \<and> 0 \<notin> topEl ` set (pipes ((playingWith [scoredGate (- 70) 2])
        \<lparr>elements := 4, lastFrameTime := 1000, lastPipeTime := 1000\<rparr>))
   \<and> 0 \<notin> topEl ` set (pipes (run ((playingWith [scoredGate (- 70) 2])
        \<lparr>elements := 4, lastFrameTime := 1000, lastPipeTime := 1000\<rparr>)
        [Frame samplePage 1050, Frame samplePage 2550]))
   \<and> steady 400 ((playingWith [scoredGate (- 70) 2])
        \<lparr>elements := 4, lastFrameTime := 1000, lastPipeTime := 1000\<rparr>)
        ([Frame samplePage 1050] @ [Frame samplePage 2550])
   \<and> map topEl (pipes (run ((playingWith [scoredGate (- 70) 2])
        \<lparr>elements := 4, lastFrameTime := 1000, lastPipeTime := 1000\<rparr>)
        [Frame samplePage 1050])) = [2]
   \<and> map topEl (pipes (run ((playingWith [scoredGate (- 70) 2])
        \<lparr>elements := 4, lastFrameTime := 1000, lastPipeTime := 1000\<rparr>)
        ([Frame samplePage 1050] @ [Frame samplePage 2550]))) = [4]
   \<and> sorted (map x (pipes (run ((playingWith [scoredGate (- 70) 2])
        \<lparr>elements := 4, lastFrameTime := 1000, lastPipeTime := 1000\<rparr>)
        ([Frame samplePage 1050] @ [Frame samplePage 2550]))))"
  using gates_form_a_queue
      [of "(playingWith [scoredGate (- 70) 2])
            \<lparr>elements := 4, lastFrameTime := 1000, lastPipeTime := 1000\<rparr>"
          0 "[Frame samplePage 1050, Frame samplePage 2550]" 400 "Frame samplePage 2550"]
    gates_form_a_queue
      [of "(playingWith [scoredGate (- 70) 2])
            \<lparr>elements := 4, lastFrameTime := 1000, lastPipeTime := 1000\<rparr>"
          0 "[Frame samplePage 1050]" 400 "Frame samplePage 2550"]
  by (simp add: gameLoop_def Let_def playingWith_def initialState_def frameDelta_def
        createPipe_def pipeShape_def updatePipes_def movePipe_def hasCollision_def
        samplePage_def sampleSizes_def intersects_def requestFrame_def endGame_def
        scoredGate_def run_def startPlaying_def resetGameState_def resetBird_def
        clearPipes_def init_def loadHighScore_def)

text \<open>
  The order of the claim is the opposite one and fails: after a start and three frames
  there are two gates, and the one inserted first is to the left of the one inserted
  second.
\<close>

theorem later_gate_is_further_right:
  "map x (pipes (run (init sampleSizes (initialState None))
      [Input sampleSizes MouseDown, Frame samplePage 1000, Frame samplePage 1050,
       Frame samplePage 2550])) = [385.6, 392.8]
   \<and> map topEl (pipes (run (init sampleSizes (initialState None))
      [Input sampleSizes MouseDown, Frame samplePage 1000, Frame samplePage 1050,
       Frame samplePage 2550])) = [0, 2]
   \<and> \<not> sorted (rev (map x (pipes (run (init sampleSizes (initialState None))
      [Input sampleSizes MouseDown, Frame samplePage 1000, Frame samplePage 1050,
       Frame samplePage 2550]))))"
proof -
  have pos: "map x (pipes (run (init sampleSizes (initialState None))
      [Input sampleSizes MouseDown, Frame samplePage 1000, Frame samplePage 1050,
       Frame samplePage 2550])) = [385.6, 392.8]"
    by (simp add: gameLoop_def Let_def playingWith_def initialState_def frameDelta_def
        createPipe_def pipeShape_def updatePipes_def movePipe_def hasCollision_def
        samplePage_def sampleSizes_def intersects_def requestFrame_def endGame_def
        scoredGate_def run_def startPlaying_def resetGameState_def resetBird_def
        clearPipes_def init_def loadHighScore_def)
  have els: "map topEl (pipes (run (init sampleSizes (initialState None))
      [Input sampleSizes MouseDown, Frame samplePage 1000, Frame samplePage 1050,
       Frame samplePage 2550])) = [0, 2]"
    by (simp add: gameLoop_def Let_def playingWith_def initialState_def frameDelta_def
        createPipe_def pipeShape_def updatePipes_def movePipe_def hasCollision_def
        samplePage_def sampleSizes_def intersects_def requestFrame_def endGame_def
        scoredGate_def run_def startPlaying_def resetGameState_def resetBird_def
        clearPipes_def init_def loadHighScore_def)
  show ?thesis
    unfolding pos els by (simp add: sorted2 del: sorted_wrt.simps)
qed

end
